theory Spec2Isabelle
  imports Main "HOL-Library.Word"
begin

section \<open>JavaScript strings and the built-ins used by \<open>normalizeUri\<close>\<close>

text \<open>
  A JavaScript string is a sequence of 16-bit UTF-16 code units. File names, locators,
  URIs and document texts are all such strings.
\<close>

type_synonym jsstring = "16 word list"

text \<open>Writes an ASCII literal as a JavaScript string.\<close>

definition js :: "string \<Rightarrow> jsstring" where
  "js s = map of_char s"

text \<open>
  The faults of the program: \<open>URIError\<close> is thrown by \<open>encodeURIComponent\<close> on an
  unpaired surrogate, \<open>TypeError\<close> by a property access on \<open>undefined\<close>.
\<close>

datatype error = URIError | TypeError

text \<open>
  \<open>id: string | TextDocumentIdentifier\<close>: a locator is a native path, or an object
  carrying a \<open>uri\<close> (what \<open>TextDocumentIdentifier.is\<close> tests).
\<close>

datatype locator = Path jsstring | TextDocumentIdentifier jsstring

subsection \<open>\<open>encodeURIComponent\<close>\<close>

text \<open>
  The characters \<open>encodeURIComponent\<close> leaves alone: the ASCII letters and digits and
  \<open>- _ . ! ~ * ' ( )\<close>.
\<close>

definition uriUnescaped :: "16 word \<Rightarrow> bool" where
  "uriUnescaped c \<longleftrightarrow>
     (0x41 \<le> c \<and> c \<le> 0x5A) \<or> (0x61 \<le> c \<and> c \<le> 0x7A) \<or> (0x30 \<le> c \<and> c \<le> 0x39) \<or>
     c \<in> set [0x2D, 0x5F, 0x2E, 0x21, 0x7E, 0x2A, 0x27, 0x28, 0x29]"

definition isLeadSurrogate :: "16 word \<Rightarrow> bool" where
  "isLeadSurrogate c \<longleftrightarrow> 0xD800 \<le> c \<and> c \<le> 0xDBFF"

definition isTrailSurrogate :: "16 word \<Rightarrow> bool" where
  "isTrailSurrogate c \<longleftrightarrow> 0xDC00 \<le> c \<and> c \<le> 0xDFFF"

text \<open>The code point of a surrogate pair.\<close>

definition surrogatePair :: "16 word \<Rightarrow> 16 word \<Rightarrow> nat" where
  "surrogatePair hi lo = (unat hi - 0xD800) * 0x400 + (unat lo - 0xDC00) + 0x10000"

text \<open>The UTF-8 octets of a code point.\<close>

definition utf8 :: "nat \<Rightarrow> nat list" where
  "utf8 cp =
     (if cp < 0x80 then [cp]
      else if cp < 0x800 then [0xC0 + cp div 64, 0x80 + cp mod 64]
      else if cp < 0x10000 then
        [0xE0 + cp div 4096, 0x80 + (cp div 64) mod 64, 0x80 + cp mod 64]
      else
        [0xF0 + cp div 262144, 0x80 + (cp div 4096) mod 64,
         0x80 + (cp div 64) mod 64, 0x80 + cp mod 64])"

definition hexDigit :: "nat \<Rightarrow> 16 word" where
  "hexDigit n = (if n < 10 then 0x30 + of_nat n else 0x41 + of_nat (n - 10))"

text \<open>One octet as \<open>%XX\<close>, upper-case hexadecimal.\<close>

definition percentOctet :: "nat \<Rightarrow> jsstring" where
  "percentOctet b = [0x25, hexDigit (b div 16), hexDigit (b mod 16)]"

definition percentEncode :: "nat \<Rightarrow> jsstring" where
  "percentEncode cp = concat (map percentOctet (utf8 cp))"

text \<open>Prepends already encoded units to the result of encoding the rest.\<close>

definition andThen :: "jsstring \<Rightarrow> error + jsstring \<Rightarrow> error + jsstring" where
  "andThen pre r = (case r of Inl e \<Rightarrow> Inl e | Inr s \<Rightarrow> Inr (pre @ s))"

text \<open>
  \<open>encodeURIComponent\<close>, as ECMAScript's \<open>Encode\<close> defines it: an unescaped unit is
  copied, a surrogate pair is read as one code point, an unpaired surrogate throws
  \<open>URIError\<close>, and every other code point becomes the \<open>%XX\<close> of its UTF-8 octets.
\<close>

fun encodeURIComponent :: "jsstring \<Rightarrow> error + jsstring" where
  "encodeURIComponent [] = Inr []"
| "encodeURIComponent (c # cs) =
     (if uriUnescaped c then andThen [c] (encodeURIComponent cs)
      else if isTrailSurrogate c then Inl URIError
      else if isLeadSurrogate c then
        (case cs of
           [] \<Rightarrow> Inl URIError
         | d # ds \<Rightarrow>
             if isTrailSurrogate d
             then andThen (percentEncode (surrogatePair c d)) (encodeURIComponent ds)
             else Inl URIError)
      else andThen (percentEncode (unat c)) (encodeURIComponent cs))"

subsection \<open>\<open>split\<close>, \<open>map\<close>, \<open>join\<close>, \<open>charAt\<close>\<close>

text \<open>The separators of the regular expression \<open>/[\\/]/\<close>: backslash and slash.\<close>

definition isSeparator :: "16 word \<Rightarrow> bool" where
  "isSeparator c \<longleftrightarrow> c = 0x5C \<or> c = 0x2F"

text \<open>
  \<open>id.split(/[\\/]/)\<close>: the pieces between separators; the empty string gives one
  empty piece, and a separator at either end gives an empty piece there.
\<close>

fun split :: "jsstring \<Rightarrow> jsstring list" where
  "split [] = [[]]"
| "split (c # cs) =
     (if isSeparator c then [] # split cs
      else (case split cs of [] \<Rightarrow> [[c]] | s # ss \<Rightarrow> (c # s) # ss))"

text \<open>
  \<open>segments.map(encodeURIComponent)\<close>: the first segment that throws ends the whole
  call.
\<close>

fun mapEncode :: "jsstring list \<Rightarrow> error + jsstring list" where
  "mapEncode [] = Inr []"
| "mapEncode (s # ss) =
     (case encodeURIComponent s of
        Inl e \<Rightarrow> Inl e
      | Inr t \<Rightarrow> (case mapEncode ss of Inl e \<Rightarrow> Inl e | Inr ts \<Rightarrow> Inr (t # ts)))"

text \<open>\<open>parts.join("/")\<close>.\<close>

fun join :: "jsstring list \<Rightarrow> jsstring" where
  "join [] = []"
| "join [s] = s"
| "join (s # t # ts) = s @ 0x2F # join (t # ts)"

text \<open>\<open>s.charAt(0)\<close>: the first unit as a string, the empty string when there is none.\<close>

definition charAt0 :: "jsstring \<Rightarrow> jsstring" where
  "charAt0 s = take 1 s"

section \<open>The file-system collaborator\<close>

text \<open>
  The native host (\<open>Host.getHost()\<close>) and \<open>Files.uriToFilePath\<close> are outside the
  repository; they are parameters of the model. \<open>host_readFile\<close> is \<open>None\<close> where
  the native \<open>readFile\<close> returns \<open>undefined\<close>. They are taken to return normally;
  what they do on a locator they cannot handle is not the repository's code.
\<close>

record host =
  uriToFilePath :: "jsstring \<Rightarrow> jsstring"
  resolveFile :: "jsstring \<Rightarrow> jsstring"
  normalizeFile :: "jsstring \<Rightarrow> jsstring"
  host_readFile :: "jsstring \<Rightarrow> jsstring option"

subsection \<open>\<open>normalizeFilename\<close> and \<open>normalizeUri\<close>\<close>

definition normalizeFilename :: "host \<Rightarrow> locator \<Rightarrow> jsstring" where
  "normalizeFilename h ident =
     (let filename = (case ident of
                        TextDocumentIdentifier u \<Rightarrow> uriToFilePath h u
                      | Path p \<Rightarrow> p);
          resolved = resolveFile h filename;
          normalized = normalizeFile h resolved
      in normalized)"

definition normalizeUri :: "locator \<Rightarrow> error + jsstring" where
  "normalizeUri ident =
     (case ident of
        TextDocumentIdentifier u \<Rightarrow> Inr u
      | Path p \<Rightarrow>
          (case mapEncode (split p) of
             Inl e \<Rightarrow> Inl e
           | Inr parts \<Rightarrow>
               (let pathname = join parts
                in if charAt0 pathname = js ''/''
                   then Inr (js ''file://'' @ pathname)
                   else Inr (js ''file:///'' @ pathname))))"

text \<open>
  The conversion as the specification words it: the path is split into segments, each
  segment is percent-encoded, the segments are joined with a slash, and the prefix is
  \<open>file://\<close> when the original path began with a slash, \<open>file:///\<close> otherwise.
\<close>

definition spec_normalizeUri :: "jsstring \<Rightarrow> error + jsstring" where
  "spec_normalizeUri p =
     (case mapEncode (split p) of
        Inl e \<Rightarrow> Inl e
      | Inr parts \<Rightarrow>
          Inr ((if take 1 p = js ''/'' then js ''file://'' else js ''file:///'') @ join parts))"

text \<open>
  The hypothesis of normalization idempotence: the collaborator's \<open>resolveFile\<close> and
  \<open>normalizeFile\<close> leave a path alone that is already resolved and normalized.
\<close>

definition canonicalHost :: "host \<Rightarrow> bool" where
  "canonicalHost h \<longleftrightarrow>
     (\<forall>p. resolveFile h (normalizeFile h (resolveFile h p)) = normalizeFile h (resolveFile h p) \<and>
          normalizeFile h (normalizeFile h (resolveFile h p)) = normalizeFile h (resolveFile h p))"

text \<open>
  A host for examples: a \<open>file://\<close> URI loses its scheme, normalizing turns every
  backslash into a slash, and two files exist.
\<close>

definition exampleHost :: host where
  "exampleHost =
     \<lparr> uriToFilePath = drop 7,
       resolveFile = (\<lambda>p. p),
       normalizeFile = map (\<lambda>c. if c = 0x5C then 0x2F else c),
       host_readFile = (\<lambda>p. if p = js ''/a.grammar'' then Some (js ''A'')
                             else if p = js ''/b.grammar'' then Some (js ''B'')
                             else None) \<rparr>"

section \<open>The document manager (\<open>documents.ts\<close>)\<close>

subsection \<open>State\<close>

text \<open>
  A \<open>GrammarDocument\<close>. A field that was never assigned is \<open>undefined\<close>: \<open>None\<close> for
  \<open>uri\<close> and \<open>text\<close>, \<open>False\<close> for the three flags, which the code only tests for
  truth.
\<close>

record GrammarDocument =
  uri :: "jsstring option"
  filename :: jsstring
  text' :: "jsstring option"
  isOpenOnClient :: bool
  isOpenOnServer :: bool
  marked :: bool

text \<open>\<open>new GrammarDocument(filename)\<close>.\<close>

definition newGrammarDocument :: "jsstring \<Rightarrow> GrammarDocument" where
  "newGrammarDocument f =
     \<lparr> uri = None, filename = f, text' = None,
       isOpenOnClient = False, isOpenOnServer = False, marked = False \<rparr>"

text \<open>
  The compiler collaborator is outside the repository. A \<open>Grammar\<close> object is kept as
  the root names it was built from. What the compiler does while it is built and checked is
  a \<open>compilation\<close>: it stops, or asks the host's read callback for a file and goes on
  with the answer. A \<open>compiler\<close> gives the compilation for the root names and the previous
  grammar handed to \<open>new Grammar(rootNames, {}, host, oldGrammar)\<close>.
\<close>

datatype Grammar = Grammar "jsstring list"

datatype compilation = Done | ReadFile jsstring "jsstring option \<Rightarrow> compilation"

type_synonym compiler = "jsstring list \<Rightarrow> Grammar option \<Rightarrow> compilation"

text \<open>
  The events of the manager's emitters; a document is named by its \<open>filename\<close>.
\<close>

datatype event =
    DidOpen jsstring
  | DidOpenOnClient jsstring
  | DidOpenOnServer jsstring
  | DidChangeContent jsstring
  | DidClose jsstring
  | DidCloseOnClient jsstring
  | DidCloseOnServer jsstring
  | DidUpdate

text \<open>
  The fields of \<open>DocumentManager\<close>: \<open>p_documents\<close> is \<open>_documents\<close> and so on.
  The dictionary \<open>_documents\<close> is the list of its values in insertion order; the key of
  a value is its \<open>filename\<close>, which no code assigns after the constructor. \<open>fired\<close>
  and \<open>requests\<close> are observations, not fields of the class: the events fired so far,
  in order, and the number of calls of \<open>requestUpdate\<close> so far.
\<close>

record DocumentManager =
  p_documents :: "GrammarDocument list"
  p_rootNames :: "jsstring list option"
  p_grammar :: "Grammar option"
  p_updateSuspended :: nat
  p_updateRequested :: bool
  p_updating :: bool
  fired :: "event list"
  requests :: nat

definition newDocumentManager :: DocumentManager where
  "newDocumentManager =
     \<lparr> p_documents = [], p_rootNames = None, p_grammar = None, p_updateSuspended = 0,
       p_updateRequested = False, p_updating = False, fired = [], requests = 0 \<rparr>"

subsection \<open>The dictionary\<close>

text \<open>\<open>Dictionary.get(this._documents, filename)\<close>.\<close>

definition getDocument :: "DocumentManager \<Rightarrow> jsstring \<Rightarrow> GrammarDocument option" where
  "getDocument m f = find (\<lambda>d. filename d = f) (p_documents m)"

text \<open>\<open>Dictionary.set\<close>: an existing key keeps its place, a new one goes last.\<close>

fun dictSet :: "GrammarDocument \<Rightarrow> GrammarDocument list \<Rightarrow> GrammarDocument list" where
  "dictSet d [] = [d]"
| "dictSet d (x # xs) = (if filename x = filename d then d # xs else x # dictSet d xs)"

definition createDocument :: "jsstring \<Rightarrow> DocumentManager \<Rightarrow> DocumentManager" where
  "createDocument f m = m\<lparr>p_documents := dictSet (newGrammarDocument f) (p_documents m)\<rparr>"

text \<open>\<open>delete this._documents[filename]\<close>, which is \<open>true\<close>.\<close>

definition closeDocument :: "jsstring \<Rightarrow> DocumentManager \<Rightarrow> bool \<times> DocumentManager" where
  "closeDocument f m = (True, m\<lparr>p_documents := filter (\<lambda>d. filename d \<noteq> f) (p_documents m)\<rparr>)"

text \<open>
  An assignment to fields of the document object registered under \<open>f\<close>. Every assignment
  of the source is to an object that is registered when it is made.
\<close>

definition setDocument ::
  "jsstring \<Rightarrow> (GrammarDocument \<Rightarrow> GrammarDocument) \<Rightarrow> DocumentManager \<Rightarrow> DocumentManager" where
  "setDocument f upd m =
     m\<lparr>p_documents := map (\<lambda>d. if filename d = f then upd d else d) (p_documents m)\<rparr>"

definition getOrCreateDocument ::
  "jsstring \<Rightarrow> DocumentManager \<Rightarrow> bool \<times> GrammarDocument \<times> DocumentManager" where
  "getOrCreateDocument f m =
     (case getDocument m f of
        Some document \<Rightarrow> (False, document, m)
      | None \<Rightarrow> (True, newGrammarDocument f, createDocument f m))"

subsection \<open>Events and update batching\<close>

text \<open>
  \<open>emitter.fire(x)\<close>. In the repository only \<open>onDidUpdate\<close> has a subscriber; the
  other events are recorded and nothing else happens.
\<close>

definition fire :: "event \<Rightarrow> DocumentManager \<Rightarrow> DocumentManager" where
  "fire e m = m\<lparr>fired := fired m @ [e]\<rparr>"

definition invalidateGrammar :: "DocumentManager \<Rightarrow> DocumentManager" where
  "invalidateGrammar m = m\<lparr>p_rootNames := None, p_grammar := None\<rparr>"

text \<open>
  \<open>reportUpdate\<close>, with \<open>L\<close> what the subscribers of \<open>onDidUpdate\<close> do to the
  manager. The \<open>finally\<close> block resets \<open>_updating\<close> whether or not a subscriber throws.
\<close>

definition reportUpdate ::
  "(DocumentManager \<Rightarrow> DocumentManager) \<Rightarrow> DocumentManager \<Rightarrow> DocumentManager" where
  "reportUpdate L m =
     (if \<not> p_updating m then
        (let m1 = m\<lparr>p_updating := True\<rparr>;
             m2 = m1\<lparr>p_updateRequested := False\<rparr>;
             m3 = L (fire DidUpdate m2)
         in m3\<lparr>p_updating := False\<rparr>)
      else m)"

definition requestUpdate ::
  "(DocumentManager \<Rightarrow> DocumentManager) \<Rightarrow> DocumentManager \<Rightarrow> DocumentManager" where
  "requestUpdate L m =
     (let m0 = m\<lparr>requests := Suc (requests m)\<rparr>
      in if p_updateSuspended m0 > 0 then m0\<lparr>p_updateRequested := True\<rparr>
         else reportUpdate L m0)"

definition suspendUpdates :: "DocumentManager \<Rightarrow> DocumentManager" where
  "suspendUpdates m = m\<lparr>p_updateSuspended := p_updateSuspended m + 1\<rparr>"

definition resumeUpdates ::
  "(DocumentManager \<Rightarrow> DocumentManager) \<Rightarrow> DocumentManager \<Rightarrow> DocumentManager" where
  "resumeUpdates L m =
     (if p_updateSuspended m > 0 then
        (let m1 = m\<lparr>p_updateSuspended := p_updateSuspended m - 1\<rparr>
         in if p_updateSuspended m1 = 0 \<and> p_updateRequested m1 then reportUpdate L m1 else m1)
      else m)"

subsection \<open>The two open flags\<close>

text \<open>
  In the four functions below \<open>document\<close> is the object as the caller read it; they
  return what the source returns, with the manager.
\<close>

definition openDocumentOnClient :: "GrammarDocument \<Rightarrow> DocumentManager \<Rightarrow> DocumentManager" where
  "openDocumentOnClient document m =
     (if \<not> isOpenOnClient document
      then setDocument (filename document) (\<lambda>d. d\<lparr>isOpenOnClient := True\<rparr>) m
      else m)"

definition closeDocumentOnClient ::
  "GrammarDocument \<Rightarrow> DocumentManager \<Rightarrow> bool \<times> DocumentManager" where
  "closeDocumentOnClient document m =
     (if isOpenOnClient document then
        (let m1 = setDocument (filename document) (\<lambda>d. d\<lparr>isOpenOnClient := False\<rparr>) m
         in if isOpenOnServer document then (False, m1)
            else closeDocument (filename document) m1)
      else (False, m))"

definition openDocumentOnServer :: "GrammarDocument \<Rightarrow> DocumentManager \<Rightarrow> DocumentManager" where
  "openDocumentOnServer document m =
     (if \<not> isOpenOnServer document
      then setDocument (filename document) (\<lambda>d. d\<lparr>isOpenOnServer := True\<rparr>) m
      else m)"

definition closeDocumentOnServer ::
  "GrammarDocument \<Rightarrow> DocumentManager \<Rightarrow> bool \<times> DocumentManager" where
  "closeDocumentOnServer document m =
     (if isOpenOnServer document then
        (let m1 = setDocument (filename document) (\<lambda>d. d\<lparr>isOpenOnServer := False\<rparr>) m
         in if \<not> isOpenOnClient document then closeDocument (filename document) m1
            else (False, m1))
      else (False, m))"

subsection \<open>The public operations and the client notifications\<close>

text \<open>
  \<open>open\<close> returns \<open>undefined\<close> (\<open>None\<close>) or the document, named by its filename;
  \<open>normalizeUri\<close> may throw after the document was created.
\<close>

definition "open" ::
  "host \<Rightarrow> (DocumentManager \<Rightarrow> DocumentManager) \<Rightarrow> locator \<Rightarrow> DocumentManager
     \<Rightarrow> (error + jsstring option) \<times> DocumentManager" where
  "open h L ident m =
     (let f = normalizeFilename h ident
      in case host_readFile h f of
           None \<Rightarrow> (Inr None, m)
         | Some t \<Rightarrow>
             (let (created, document, m1) = getOrCreateDocument f m;
                  changed = (text' document \<noteq> Some t);
                  wasOpenOnServer = isOpenOnServer document
              in case normalizeUri ident of
                   Inl e \<Rightarrow> (Inl e, m1)
                 | Inr u \<Rightarrow>
                     (let m2 = setDocument (filename document)
                                 (\<lambda>d. d\<lparr>uri := Some u, text' := Some t\<rparr>) m1;
                          m3 = openDocumentOnServer document m2;
                          m4 = (if changed then invalidateGrammar m3 else m3);
                          m5 = (if created then fire (DidOpen (filename document)) m4 else m4);
                          m6 = (if \<not> wasOpenOnServer
                                then fire (DidCloseOnServer (filename document)) m5 else m5);
                          m7 = (if changed
                                then requestUpdate L (fire (DidChangeContent (filename document)) m6)
                                else m6)
                      in (Inr (Some (filename document)), m7))))"

definition close ::
  "host \<Rightarrow> (DocumentManager \<Rightarrow> DocumentManager) \<Rightarrow> locator \<Rightarrow> DocumentManager
     \<Rightarrow> DocumentManager" where
  "close h L ident m =
     (let f = normalizeFilename h ident
      in case getDocument m f of
           None \<Rightarrow> m
         | Some document \<Rightarrow>
             (let wasOpenOnServer = isOpenOnServer document;
                  (removed, m1) = closeDocumentOnServer document m;
                  m2 = (if removed then invalidateGrammar m1 else m1);
                  m3 = (if \<not> wasOpenOnServer
                        then fire (DidCloseOnServer (filename document)) m2 else m2)
              in if \<not> isOpenOnClient document
                 then requestUpdate L (fire (DidClose (filename document)) m3)
                 else m3))"

definition handleOpenClientDocument ::
  "host \<Rightarrow> (DocumentManager \<Rightarrow> DocumentManager) \<Rightarrow> jsstring \<Rightarrow> jsstring \<Rightarrow> DocumentManager
     \<Rightarrow> DocumentManager" where
  "handleOpenClientDocument h L u t m =
     (let f = normalizeFilename h (TextDocumentIdentifier u);
          (created, document, m1) = getOrCreateDocument f m;
          changed = (text' document \<noteq> Some t);
          wasOpenOnClient = isOpenOnClient document;
          m2 = setDocument (filename document) (\<lambda>d. d\<lparr>uri := Some u, text' := Some t\<rparr>) m1;
          m3 = openDocumentOnClient document m2;
          m4 = (if changed then invalidateGrammar m3 else m3);
          m5 = (if created then fire (DidOpen (filename document)) m4 else m4);
          m6 = (if \<not> wasOpenOnClient
                then fire (DidOpenOnClient (filename document)) m5 else m5)
      in if changed
         then requestUpdate L (fire (DidChangeContent (filename document)) m6)
         else m6)"

text \<open>
  \<open>contentChanges\<close> is given by the \<open>text\<close> of each change; only the last one is
  used, and an empty list does nothing.
\<close>

definition handleUpdateClientDocument ::
  "host \<Rightarrow> (DocumentManager \<Rightarrow> DocumentManager) \<Rightarrow> jsstring \<Rightarrow> jsstring list \<Rightarrow> DocumentManager
     \<Rightarrow> DocumentManager" where
  "handleUpdateClientDocument h L u contentChanges m =
     (if length contentChanges > 0 then
        (let t = last contentChanges;
             f = normalizeFilename h (TextDocumentIdentifier u);
             (created, document, m1) = getOrCreateDocument f m;
             changed = (text' document \<noteq> Some t);
             wasOpenOnClient = isOpenOnClient document;
             m2 = setDocument (filename document) (\<lambda>d. d\<lparr>uri := Some u, text' := Some t\<rparr>) m1;
             m3 = openDocumentOnClient document m2;
             m4 = (if changed then invalidateGrammar m3 else m3);
             m5 = (if created then fire (DidOpen (filename document)) m4 else m4);
             m6 = (if \<not> wasOpenOnClient
                   then fire (DidOpenOnClient (filename document)) m5 else m5)
         in if changed
            then requestUpdate L (fire (DidChangeContent (filename document)) m6)
            else m6)
      else m)"

definition handleCloseClientDocument ::
  "host \<Rightarrow> (DocumentManager \<Rightarrow> DocumentManager) \<Rightarrow> jsstring \<Rightarrow> DocumentManager
     \<Rightarrow> DocumentManager" where
  "handleCloseClientDocument h L u m =
     (let f = normalizeFilename h (TextDocumentIdentifier u)
      in case getDocument m f of
           None \<Rightarrow> m
         | Some document \<Rightarrow>
             (let wasOpenOnClient = isOpenOnClient document;
                  (removed, m1) = closeDocumentOnClient document m;
                  m2 = (if removed then invalidateGrammar m1 else m1);
                  m3 = (if \<not> wasOpenOnClient
                        then fire (DidCloseOnClient (filename document)) m2 else m2)
              in if \<not> isOpenOnServer document
                 then requestUpdate L (fire (DidClose (filename document)) m3)
                 else m3))"

subsection \<open>The read callback and the rebuild\<close>

text \<open>
  \<open>readFile\<close>, the callback given to the compiler's host: the text of the document, or
  \<open>undefined\<close>.
\<close>

definition readFile ::
  "host \<Rightarrow> jsstring \<Rightarrow> DocumentManager \<Rightarrow> jsstring option \<times> DocumentManager" where
  "readFile h f m =
     (let m1 = (case getDocument m f of
                  Some document \<Rightarrow> m
                | None \<Rightarrow>
                    (case host_readFile h f of
                       None \<Rightarrow> m
                     | Some t \<Rightarrow>
                         openDocumentOnServer (newGrammarDocument f)
                           (setDocument f (\<lambda>d. d\<lparr>text' := Some t\<rparr>) (createDocument f m))))
      in case getDocument m1 f of
           Some document \<Rightarrow>
             (text' document, setDocument (filename document) (\<lambda>d. d\<lparr>marked := True\<rparr>) m1)
         | None \<Rightarrow> (None, m1))"

text \<open>
  Runs a compilation against the read callback; returns the files it asked for, in order.
\<close>

primrec runCompilation ::
  "host \<Rightarrow> compilation \<Rightarrow> DocumentManager \<Rightarrow> jsstring list \<times> DocumentManager" where
  "runCompilation h Done = (\<lambda>m. ([], m))"
| "runCompilation h (ReadFile f k) =
     (\<lambda>m. let (r, m1) = readFile h f m;
               (fs, m2) = runCompilation h (k r) m1
           in (f # fs, m2))"

text \<open>
  The \<open>try\<close> block of \<open>refreshGrammar\<close> up to \<open>this._grammar.check()\<close>: the first
  loop marks the client-open documents and collects them as roots, then the grammar is
  built and checked. Returns the files the compiler read.
\<close>

definition buildGrammar ::
  "host \<Rightarrow> compiler \<Rightarrow> DocumentManager \<Rightarrow> jsstring list \<times> DocumentManager" where
  "buildGrammar h c m =
     (let rootNames = map filename (filter isOpenOnClient (p_documents m));
          m1 = m\<lparr>p_documents := map (\<lambda>d. d\<lparr>marked := isOpenOnClient d\<rparr>) (p_documents m)\<rparr>;
          m2 = m1\<lparr>p_rootNames := Some rootNames\<rparr>;
          m3 = m2\<lparr>p_grammar := Some (Grammar rootNames)\<rparr>
      in runCompilation h (c rootNames (p_grammar m2)) m3)"

text \<open>
  The second loop of \<open>refreshGrammar\<close>, over the values the dictionary had when the loop
  began. \<open>close\<close> writes neither \<open>marked\<close> nor \<open>isOpenOnClient\<close>, so the loop tests
  them as they were then.
\<close>

fun sweep ::
  "host \<Rightarrow> (DocumentManager \<Rightarrow> DocumentManager) \<Rightarrow> GrammarDocument list \<Rightarrow> DocumentManager
     \<Rightarrow> DocumentManager" where
  "sweep h L [] m = m"
| "sweep h L (document # rest) m =
     sweep h L rest
       (if \<not> marked document \<and> \<not> isOpenOnClient document
        then close h L (Path (filename document)) m
        else m)"

definition refreshGrammar ::
  "host \<Rightarrow> compiler \<Rightarrow> (DocumentManager \<Rightarrow> DocumentManager) \<Rightarrow> DocumentManager
     \<Rightarrow> DocumentManager" where
  "refreshGrammar h c L m =
     (let wasUpdating = p_updating m;
          m1 = m\<lparr>p_updating := True\<rparr>;
          (reads, m2) = buildGrammar h c m1;
          m3 = sweep h L (p_documents m2) m2
      in m3\<lparr>p_updating := wasUpdating\<rparr>)"

text \<open>The getter \<open>grammar\<close>: the value returned, and the manager.\<close>

definition grammar ::
  "host \<Rightarrow> compiler \<Rightarrow> (DocumentManager \<Rightarrow> DocumentManager) \<Rightarrow> DocumentManager
     \<Rightarrow> Grammar option \<times> DocumentManager" where
  "grammar h c L m =
     (let m1 = (if p_grammar m = None then refreshGrammar h c L m else m)
      in (p_grammar m1, m1))"

section \<open>The request handlers (\<open>server.ts\<close>)\<close>

text \<open>
  The subscriber of \<open>onDidUpdate\<close>, \<open>onDocumentsUpdated\<close>: it reads
  \<open>documents.grammar\<close> and calls \<open>grammar.check()\<close>, a \<open>TypeError\<close> when the getter
  gave \<open>undefined\<close>; checking a grammar that \<open>refreshGrammar\<close> has checked is taken
  to read no file. The loop that follows sends diagnostics to the connection; with a grammar
  present its calls of \<open>getSourceFile\<close> leave the manager as it is. The manager is
  reporting while the subscriber runs, so the subscribers handed to the getter here are
  never reached (\<open>refreshGrammar\<close> does not depend on them).
\<close>

definition onDocumentsUpdated ::
  "host \<Rightarrow> compiler \<Rightarrow> DocumentManager \<Rightarrow> (error + unit) \<times> DocumentManager" where
  "onDocumentsUpdated h c m =
     (let (g, m1) = grammar h c (\<lambda>x. x) m
      in case g of
           None \<Rightarrow> (Inl TypeError, m1)
         | Some G \<Rightarrow> (Inr (), m1))"

text \<open>
  What \<open>this._didUpdate.fire(this)\<close> does to the manager in the server: the emitter
  runs \<open>onDocumentsUpdated\<close>; whether it throws or not, the manager is left as the
  subscriber left it.
\<close>

definition didUpdate :: "host \<Rightarrow> compiler \<Rightarrow> DocumentManager \<Rightarrow> DocumentManager" where
  "didUpdate h c m = snd (onDocumentsUpdated h c m)"

text \<open>
  The parts of the compiler library the handlers call, as parameters. A source file and a
  navigator are handles. \<open>lib_getSourceFile\<close> is \<open>grammar.getSourceFile(filename)\<close>,
  \<open>lib_createNavigator\<close> is \<open>grammar.resolver.createNavigator(sourceFile)\<close>, which
  may throw; \<open>None\<close> is \<open>undefined\<close>. The last three stand for what each handler computes
  once it holds a navigator: the locations of the declarations, the locations of the
  references, and the workspace edit or \<open>undefined\<close>.
\<close>

type_synonym location = "jsstring \<times> nat \<times> nat"

record library =
  lib_getSourceFile :: "Grammar \<Rightarrow> jsstring \<Rightarrow> nat option"
  lib_createNavigator :: "Grammar \<Rightarrow> nat option \<Rightarrow> error + nat option"
  lib_definition :: "Grammar \<Rightarrow> nat \<Rightarrow> nat \<Rightarrow> location list"
  lib_references :: "Grammar \<Rightarrow> nat \<Rightarrow> nat \<Rightarrow> location list"
  lib_rename :: "Grammar \<Rightarrow> nat \<Rightarrow> nat \<Rightarrow> jsstring \<Rightarrow> (jsstring \<times> location list) option"

text \<open>
  \<open>documents.getSourceFile(id)\<close>, which is
  \<open>this.grammar.getSourceFile(this.normalizeFilename(id))\<close>.
\<close>

definition getSourceFile ::
  "library \<Rightarrow> host \<Rightarrow> compiler \<Rightarrow> locator \<Rightarrow> DocumentManager
     \<Rightarrow> (error + nat option) \<times> DocumentManager" where
  "getSourceFile lib h c ident m =
     (let (g, m1) = grammar h c (didUpdate h c) m
      in case g of
           None \<Rightarrow> (Inl TypeError, m1)
         | Some G \<Rightarrow> (Inr (lib_getSourceFile lib G (normalizeFilename h ident)), m1))"

text \<open>
  \<open>onDefinition\<close> with \<open>params.uri\<close> and \<open>params.position\<close>. It reads
  \<open>grammar.resolver\<close> and calls \<open>navigator.moveToPosition\<close> without a test.
\<close>

definition onDefinition ::
  "library \<Rightarrow> host \<Rightarrow> compiler \<Rightarrow> jsstring \<Rightarrow> nat \<Rightarrow> DocumentManager
     \<Rightarrow> (error + location list) \<times> DocumentManager" where
  "onDefinition lib h c u position m =
     (let (g, m1) = grammar h c (didUpdate h c) m;
          (sf, m2) = getSourceFile lib h c (TextDocumentIdentifier u) m1
      in case sf of
           Inl e \<Rightarrow> (Inl e, m2)
         | Inr sourceFile \<Rightarrow>
             (case g of
                None \<Rightarrow> (Inl TypeError, m2)
              | Some G \<Rightarrow>
                  (case lib_createNavigator lib G sourceFile of
                     Inl e \<Rightarrow> (Inl e, m2)
                   | Inr None \<Rightarrow> (Inl TypeError, m2)
                   | Inr (Some navigator) \<Rightarrow> (Inr (lib_definition lib G navigator position), m2))))"

definition onReferences ::
  "library \<Rightarrow> host \<Rightarrow> compiler \<Rightarrow> jsstring \<Rightarrow> nat \<Rightarrow> DocumentManager
     \<Rightarrow> (error + location list) \<times> DocumentManager" where
  "onReferences lib h c u position m =
     (let (g, m1) = grammar h c (didUpdate h c) m;
          (sf, m2) = getSourceFile lib h c (TextDocumentIdentifier u) m1
      in case sf of
           Inl e \<Rightarrow> (Inl e, m2)
         | Inr sourceFile \<Rightarrow>
             (case g of
                None \<Rightarrow> (Inl TypeError, m2)
              | Some G \<Rightarrow>
                  (case lib_createNavigator lib G sourceFile of
                     Inl e \<Rightarrow> (Inl e, m2)
                   | Inr None \<Rightarrow> (Inl TypeError, m2)
                   | Inr (Some navigator) \<Rightarrow> (Inr (lib_references lib G navigator position), m2))))"

text \<open>
  \<open>onRenameRequest\<close> with \<open>params.textDocument\<close>, \<open>params.position\<close> and
  \<open>params.newName\<close>. It calls \<open>grammar.check(sourceFile)\<close> first, and tests the
  navigator before it uses it.
\<close>

definition onRenameRequest ::
  "library \<Rightarrow> host \<Rightarrow> compiler \<Rightarrow> locator \<Rightarrow> nat \<Rightarrow> jsstring \<Rightarrow> DocumentManager
     \<Rightarrow> (error + (jsstring \<times> location list) option) \<times> DocumentManager" where
  "onRenameRequest lib h c textDocument position newName m =
     (let (g, m1) = grammar h c (didUpdate h c) m;
          (sf, m2) = getSourceFile lib h c textDocument m1
      in case sf of
           Inl e \<Rightarrow> (Inl e, m2)
         | Inr sourceFile \<Rightarrow>
             (case g of
                None \<Rightarrow> (Inl TypeError, m2)
              | Some G \<Rightarrow>
                  (case lib_createNavigator lib G sourceFile of
                     Inl e \<Rightarrow> (Inl e, m2)
                   | Inr None \<Rightarrow> (Inr None, m2)
                   | Inr (Some navigator) \<Rightarrow>
                       (Inr (lib_rename lib G navigator position newName), m2))))"

text \<open>
  A compiler for examples: it reads each root, and \<open>/b.grammar\<close> after a root whose
  text is \<open>A\<close> (the text that imports it).
\<close>

primrec readAll :: "jsstring list \<Rightarrow> compilation" where
  "readAll [] = Done"
| "readAll (f # fs) =
     ReadFile f (\<lambda>r. if r = Some (js ''A'')
                     then ReadFile (js ''/b.grammar'') (\<lambda>r. readAll fs)
                     else readAll fs)"

definition exampleCompiler :: compiler where
  "exampleCompiler rootNames old = readAll rootNames"

text \<open>
  A library for examples: the source files of a grammar are its roots, a source file has a
  navigator, \<open>undefined\<close> has none, and nothing is declared or referenced anywhere.
\<close>

definition exampleLibrary :: library where
  "exampleLibrary =
     \<lparr> lib_getSourceFile = (\<lambda>G f. case G of Grammar roots \<Rightarrow> if f \<in> set roots then Some 0 else None),
       lib_createNavigator = (\<lambda>G s. Inr s),
       lib_definition = (\<lambda>G n p. []),
       lib_references = (\<lambda>G n p. []),
       lib_rename = (\<lambda>G n p name. None) \<rparr>"

section \<open>Sequences of operations and the notions of the statements\<close>

text \<open>
  No report can start: one is in progress, or updates are suspended.
\<close>

definition blocked :: "DocumentManager \<Rightarrow> bool" where
  "blocked m \<longleftrightarrow> p_updating m \<or> p_updateSuspended m > 0"

text \<open>
  The mutations that can change the content of a document: a client open notification, a
  client change notification, and a server-side \<open>open\<close>.
\<close>

datatype mutation =
    ClientOpen jsstring jsstring
  | ClientChange jsstring "jsstring list"
  | ServerOpen locator

fun mutate ::
  "host \<Rightarrow> (DocumentManager \<Rightarrow> DocumentManager) \<Rightarrow> mutation \<Rightarrow> DocumentManager
     \<Rightarrow> DocumentManager" where
  "mutate h L (ClientOpen u t) m = handleOpenClientDocument h L u t m"
| "mutate h L (ClientChange u contentChanges) m = handleUpdateClientDocument h L u contentChanges m"
| "mutate h L (ServerOpen ident) m = snd (open h L ident m)"

fun runMutations ::
  "host \<Rightarrow> (DocumentManager \<Rightarrow> DocumentManager) \<Rightarrow> mutation list \<Rightarrow> DocumentManager
     \<Rightarrow> DocumentManager" where
  "runMutations h L [] m = m"
| "runMutations h L (x # xs) m = runMutations h L xs (mutate h L x m)"

text \<open>
  The text of the document registered under \<open>f\<close>; \<open>None\<close> when there is none, as the
  \<open>text\<close> of a document just created is \<open>undefined\<close>.
\<close>

definition textOf :: "DocumentManager \<Rightarrow> jsstring \<Rightarrow> jsstring option" where
  "textOf m f = (case getDocument m f of None \<Rightarrow> None | Some d \<Rightarrow> text' d)"

text \<open>
  A mutation changes content when the source's \<open>changed\<close> is true and \<open>requestUpdate\<close>
  is reached: the text it brings differs from the text of the document.
\<close>

fun changesContent :: "host \<Rightarrow> mutation \<Rightarrow> DocumentManager \<Rightarrow> bool" where
  "changesContent h (ClientOpen u t) m =
     (textOf m (normalizeFilename h (TextDocumentIdentifier u)) \<noteq> Some t)"
| "changesContent h (ClientChange u contentChanges) m =
     (contentChanges \<noteq> [] \<and>
      textOf m (normalizeFilename h (TextDocumentIdentifier u)) \<noteq> Some (last contentChanges))"
| "changesContent h (ServerOpen ident) m =
     (case host_readFile h (normalizeFilename h ident) of
        None \<Rightarrow> False
      | Some t \<Rightarrow>
          textOf m (normalizeFilename h ident) \<noteq> Some t \<and>
          (case normalizeUri ident of Inl e \<Rightarrow> False | Inr v \<Rightarrow> True))"

text \<open>Every mutation of the list changes content when its turn comes.\<close>

fun allChangeContent ::
  "host \<Rightarrow> (DocumentManager \<Rightarrow> DocumentManager) \<Rightarrow> mutation list \<Rightarrow> DocumentManager \<Rightarrow> bool" where
  "allChangeContent h L [] m = True"
| "allChangeContent h L (x # xs) m =
     (changesContent h x m \<and> allChangeContent h L xs (mutate h L x m))"

text \<open>
  From \<open>m\<close> to \<open>m'\<close> events were only added, and no update event among them.
\<close>

definition quiet :: "DocumentManager \<Rightarrow> DocumentManager \<Rightarrow> bool" where
  "quiet m m' \<longleftrightarrow> (\<exists>es. fired m' = fired m @ es \<and> DidUpdate \<notin> set es)"

text \<open>
  The registry invariant: file names are registered once, and every registered document is
  open on the client or on the server.
\<close>

definition docsOK :: "GrammarDocument list \<Rightarrow> bool" where
  "docsOK xs \<longleftrightarrow>
     distinct (map filename xs) \<and> (\<forall>d \<in> set xs. isOpenOnClient d \<or> isOpenOnServer d)"

definition registryInvariant :: "DocumentManager \<Rightarrow> bool" where
  "registryInvariant m \<longleftrightarrow> docsOK (p_documents m)"

text \<open>
  The operations that reach the registry from outside: the two public methods, the three
  client notifications, and the read callback given to the compiler.
\<close>

datatype operation =
    Open locator
  | Close locator
  | ClientOpened jsstring jsstring
  | ClientChanged jsstring "jsstring list"
  | ClientClosed jsstring
  | ReadCallback jsstring

fun perform ::
  "host \<Rightarrow> (DocumentManager \<Rightarrow> DocumentManager) \<Rightarrow> operation \<Rightarrow> DocumentManager
     \<Rightarrow> DocumentManager" where
  "perform h L (Open ident) m = snd (open h L ident m)"
| "perform h L (Close ident) m = close h L ident m"
| "perform h L (ClientOpened u t) m = handleOpenClientDocument h L u t m"
| "perform h L (ClientChanged u contentChanges) m = handleUpdateClientDocument h L u contentChanges m"
| "perform h L (ClientClosed u) m = handleCloseClientDocument h L u m"
| "perform h L (ReadCallback f) m = snd (readFile h f m)"

text \<open>The operation ends by throwing: only \<open>open\<close> can, in \<open>normalizeUri\<close>.\<close>

fun throws :: "host \<Rightarrow> operation \<Rightarrow> bool" where
  "throws h (Open ident) =
     (case host_readFile h (normalizeFilename h ident) of
        None \<Rightarrow> False
      | Some t \<Rightarrow> (case normalizeUri ident of Inl e \<Rightarrow> True | Inr v \<Rightarrow> False))"
| "throws h x = False"

fun performAll ::
  "host \<Rightarrow> (DocumentManager \<Rightarrow> DocumentManager) \<Rightarrow> operation list \<Rightarrow> DocumentManager
     \<Rightarrow> DocumentManager" where
  "performAll h L [] m = m"
| "performAll h L (x # xs) m = performAll h L xs (perform h L x m)"

section \<open>Example states\<close>

text \<open>The subscriber of the example server.\<close>

definition exampleListener :: "DocumentManager \<Rightarrow> DocumentManager" where
  "exampleListener = didUpdate exampleHost exampleCompiler"

text \<open>
  The client has opened \<open>a.grammar\<close> with the text \<open>A\<close>; the rebuild run by the
  subscriber has read \<open>/b.grammar\<close>, which is now open on the server only.
\<close>

definition withDependency :: DocumentManager where
  "withDependency =
     handleOpenClientDocument exampleHost exampleListener (js ''file:///a.grammar'') (js ''A'')
       newDocumentManager"

text \<open>
  Then the text of \<open>a.grammar\<close> has changed to \<open>X\<close>, in a manager without
  subscribers: the grammar is invalid and not yet rebuilt.
\<close>

definition dependencyDropped :: DocumentManager where
  "dependencyDropped =
     handleUpdateClientDocument exampleHost (\<lambda>x. x) (js ''file:///a.grammar'') [js ''X'']
       withDependency"

text \<open>
  \<open>a.grammar\<close> is open on both sides: opened by the client, then by \<open>open\<close> with
  the text the file has.
\<close>

definition openOnBothSides :: DocumentManager where
  "openOnBothSides =
     snd (open exampleHost exampleListener (Path (js ''/a.grammar'')) withDependency)"

text \<open>A manager in the middle of a report, with updates not suspended.\<close>

definition reporting :: DocumentManager where
  "reporting = newDocumentManager\<lparr>p_updating := True\<rparr>"

text \<open>
  A host where the file \<open>/\<close> followed by the unpaired surrogate \<open>D800\<close> exists.
\<close>

definition surrogateHost :: host where
  "surrogateHost =
     exampleHost\<lparr>host_readFile :=
       (\<lambda>p. if p = [0x2F, 0xD800] then Some (js ''S'') else host_readFile exampleHost p)\<rparr>"






section \<open>Properties of the locator conversions\<close>

subsection \<open>\<open>normalizeUri\<close> on a native path\<close>

lemma percentEncode_first: "\<exists>r. percentEncode cp = 0x25 # r"
  by (simp add: percentEncode_def utf8_def percentOctet_def)

lemma andThen_percentEncode:
  assumes "andThen (percentEncode cp) r = Inr t"
  shows "\<exists>r'. t = 0x25 # r'"
proof -
  obtain q where "percentEncode cp = 0x25 # q" using percentEncode_first by blast
  with assms show ?thesis by (auto simp: andThen_def split: sum.splits)
qed

lemma encode_first:
  assumes "encodeURIComponent (c # cs) = Inr t"
  shows "\<exists>x r. t = x # r \<and> x \<noteq> 0x2F"
proof (cases "uriUnescaped c")
  case True
  with assms obtain r where "t = c # r"
    by (auto simp: andThen_def split: sum.splits)
  moreover from True have "c \<noteq> 0x2F" by (auto simp: uriUnescaped_def)
  ultimately show ?thesis by blast
next
  case False
  with assms have "\<exists>cp r. andThen (percentEncode cp) r = Inr t"
    by (auto split: if_splits list.splits)
  then obtain r' where "t = 0x25 # r'" using andThen_percentEncode by blast
  then show ?thesis by simp
qed

lemma split_nonempty: "split p \<noteq> []"
  by (induction p) (auto split: list.splits)

lemma split_Cons:
  "split (c # cs) = (if isSeparator c then [] # split cs
                     else (c # hd (split cs)) # tl (split cs))"
  using split_nonempty [of cs] by (cases "split cs") auto

lemma mapEncode_Cons:
  "mapEncode (s # ss) = Inr parts \<longleftrightarrow>
     (\<exists>t ts. parts = t # ts \<and> encodeURIComponent s = Inr t \<and> mapEncode ss = Inr ts)"
  by (auto split: sum.splits)

lemma mapEncode_length: "mapEncode ss = Inr ts \<Longrightarrow> length ts = length ss"
  by (induction ss arbitrary: ts) (auto split: sum.splits)

lemma join_Cons_first: "t = x # r \<Longrightarrow> charAt0 (join (t # ts)) = [x]"
  by (cases ts) (simp_all add: charAt0_def)

lemma join_Nil_first: "ts \<noteq> [] \<Longrightarrow> charAt0 (join ([] # ts)) = [0x2F]"
  by (cases ts) (simp_all add: charAt0_def)

lemma js_slash: "js ''/'' = [0x2F]"
  by (simp add: js_def)

lemma charAt0_pathname:
  assumes "mapEncode (split p) = Inr parts"
  shows "charAt0 (join parts) = js ''/'' \<longleftrightarrow> p \<noteq> [] \<and> isSeparator (hd p)"
proof (cases p)
  case Nil
  with assms show ?thesis by (auto simp: charAt0_def js_slash)
next
  case (Cons c cs)
  show ?thesis
  proof (cases "isSeparator c")
    case True
    with assms Cons obtain ts where parts: "parts = [] # ts" and ts: "mapEncode (split cs) = Inr ts"
      by (auto simp del: mapEncode.simps simp add: mapEncode_Cons)
    from ts have "ts \<noteq> []" using mapEncode_length split_nonempty by fastforce
    with parts True Cons show ?thesis by (simp add: join_Nil_first js_slash)
  next
    case False
    with assms Cons obtain t ts where parts: "parts = t # ts"
      and t: "encodeURIComponent (c # hd (split cs)) = Inr t"
      by (auto simp del: mapEncode.simps split.simps simp add: split_Cons mapEncode_Cons)
    from encode_first [OF t] obtain x r where "t = x # r" "x \<noteq> 0x2F" by blast
    with parts False Cons show ?thesis by (simp add: join_Cons_first js_slash)
  qed
qed

text \<open>
  C8, as the code has it. For every native path, \<open>normalizeUri\<close> splits the path at
  every slash and backslash, percent-encodes each segment on its own, joins the segments with
  a slash and prefixes \<open>file://\<close> when the path began with a slash or a backslash,
  \<open>file:///\<close> otherwise; it throws \<open>URIError\<close> exactly when
  \<open>encodeURIComponent\<close> throws on a segment.
\<close>

theorem normalizeUri_path:
  "normalizeUri (Path p) =
     (case mapEncode (split p) of
        Inl e \<Rightarrow> Inl e
      | Inr parts \<Rightarrow>
          Inr ((if p \<noteq> [] \<and> isSeparator (hd p) then js ''file://'' else js ''file:///'')
               @ join parts))"
proof (cases "mapEncode (split p)")
  case (Inl e)
  then show ?thesis by (simp add: normalizeUri_def)
next
  case (Inr parts)
  from charAt0_pathname [OF Inr] show ?thesis
    by (simp add: normalizeUri_def Inr Let_def)
qed

theorem normalizeUri_path_witness:
  "normalizeUri (Path (js ''/my dir/x.grammar'')) = Inr (js ''file:///my%20dir/x.grammar'')"
  using normalizeUri_path [of "js ''/my dir/x.grammar''"]
  by (simp add: js_def isSeparator_def uriUnescaped_def isTrailSurrogate_def isLeadSurrogate_def
      percentEncode_def utf8_def percentOctet_def hexDigit_def andThen_def)

text \<open>
  C8, as the specification words it, fails on a path that begins with a backslash: the code
  gives \<open>file:///a\<close> for a backslash followed by \<open>a\<close>, the specification's rule
  \<open>file:////a\<close>.
\<close>

theorem normalizeUri_backslash_counterexample:
  "normalizeUri (Path [0x5C, 0x61]) = Inr (js ''file:///a'') \<and>
   spec_normalizeUri [0x5C, 0x61] = Inr (js ''file:////a'') \<and>
   normalizeUri (Path [0x5C, 0x61]) \<noteq> spec_normalizeUri [0x5C, 0x61]"
  by (simp add: normalizeUri_def spec_normalizeUri_def js_def isSeparator_def uriUnescaped_def
      andThen_def charAt0_def)

subsection \<open>\<open>normalizeFilename\<close>\<close>

lemma normalizeFilename_Path:
  "normalizeFilename h (Path p) = normalizeFile h (resolveFile h p)"
  by (simp add: normalizeFilename_def)

text \<open>
  C9. Normalization idempotence: when the collaborator's resolve and normalize functions
  act as the identity on already resolved and normalized paths, normalizing the result
  of \<open>normalizeFilename\<close> again changes nothing, for a path and for a URI locator alike.
\<close>

theorem normalizeFilename_idempotent:
  assumes "canonicalHost h"
  shows "normalizeFilename h (Path (normalizeFilename h x)) = normalizeFilename h x"
proof (cases x)
  case (Path p)
  from assms show ?thesis
    unfolding Path normalizeFilename_Path canonicalHost_def by simp
next
  case (TextDocumentIdentifier u)
  have "normalizeFilename h x = normalizeFile h (resolveFile h (uriToFilePath h u))"
    by (simp add: TextDocumentIdentifier normalizeFilename_def)
  with assms show ?thesis
    unfolding normalizeFilename_Path canonicalHost_def by simp
qed

theorem normalizeFilename_idempotent_witness:
  "canonicalHost exampleHost \<and>
   normalizeFilename exampleHost (Path (normalizeFilename exampleHost (Path [0x5C, 0x61]))) =
   normalizeFilename exampleHost (Path [0x5C, 0x61])"
  using normalizeFilename_idempotent [of exampleHost "Path [0x5C, 0x61]"]
  by (simp add: canonicalHost_def exampleHost_def)

section \<open>Properties of the document manager\<close>

subsection \<open>Fields after the basic steps\<close>

lemma fire_fields [simp]:
  "p_documents (fire e m) = p_documents m"
  "p_rootNames (fire e m) = p_rootNames m"
  "p_grammar (fire e m) = p_grammar m"
  "p_updateSuspended (fire e m) = p_updateSuspended m"
  "p_updateRequested (fire e m) = p_updateRequested m"
  "p_updating (fire e m) = p_updating m"
  "fired (fire e m) = fired m @ [e]"
  "requests (fire e m) = requests m"
  by (simp_all add: fire_def)

lemma invalidateGrammar_fields [simp]:
  "p_documents (invalidateGrammar m) = p_documents m"
  "p_rootNames (invalidateGrammar m) = None"
  "p_grammar (invalidateGrammar m) = None"
  "p_updateSuspended (invalidateGrammar m) = p_updateSuspended m"
  "p_updateRequested (invalidateGrammar m) = p_updateRequested m"
  "p_updating (invalidateGrammar m) = p_updating m"
  "fired (invalidateGrammar m) = fired m"
  "requests (invalidateGrammar m) = requests m"
  by (simp_all add: invalidateGrammar_def)

lemma setDocument_fields [simp]:
  "p_documents (setDocument f upd m) = map (\<lambda>d. if filename d = f then upd d else d) (p_documents m)"
  "p_rootNames (setDocument f upd m) = p_rootNames m"
  "p_grammar (setDocument f upd m) = p_grammar m"
  "p_updateSuspended (setDocument f upd m) = p_updateSuspended m"
  "p_updateRequested (setDocument f upd m) = p_updateRequested m"
  "p_updating (setDocument f upd m) = p_updating m"
  "fired (setDocument f upd m) = fired m"
  "requests (setDocument f upd m) = requests m"
  by (simp_all add: setDocument_def)

lemma createDocument_fields [simp]:
  "p_documents (createDocument f m) = dictSet (newGrammarDocument f) (p_documents m)"
  "p_rootNames (createDocument f m) = p_rootNames m"
  "p_grammar (createDocument f m) = p_grammar m"
  "p_updateSuspended (createDocument f m) = p_updateSuspended m"
  "p_updateRequested (createDocument f m) = p_updateRequested m"
  "p_updating (createDocument f m) = p_updating m"
  "fired (createDocument f m) = fired m"
  "requests (createDocument f m) = requests m"
  by (simp_all add: createDocument_def)

lemma closeDocument_fields [simp]:
  "fst (closeDocument f m) = True"
  "p_documents (snd (closeDocument f m)) = filter (\<lambda>d. filename d \<noteq> f) (p_documents m)"
  "p_rootNames (snd (closeDocument f m)) = p_rootNames m"
  "p_grammar (snd (closeDocument f m)) = p_grammar m"
  "p_updateSuspended (snd (closeDocument f m)) = p_updateSuspended m"
  "p_updateRequested (snd (closeDocument f m)) = p_updateRequested m"
  "p_updating (snd (closeDocument f m)) = p_updating m"
  "fired (snd (closeDocument f m)) = fired m"
  "requests (snd (closeDocument f m)) = requests m"
  by (simp_all add: closeDocument_def)

subsection \<open>Update batching\<close>

lemma reportUpdate_updating [simp]: "p_updating m \<Longrightarrow> reportUpdate L m = m"
  by (simp add: reportUpdate_def)

text \<open>
  C2, as the code has it. When \<open>requestUpdate\<close> is called while a report is in progress
  and updates are not suspended, the request is discarded: the call is counted and nothing
  else changes, so the request is not recorded as pending, no event is fired and the
  subscribers are not run, then or later.
\<close>

theorem requestUpdate_while_reporting:
  assumes "p_updating m" and "p_updateSuspended m = 0"
  shows "requestUpdate L m = m\<lparr>requests := Suc (requests m)\<rparr>"
  using assms by (simp add: requestUpdate_def Let_def)


theorem requestUpdate_while_reporting_witness:
  "p_updating reporting \<and> p_updateSuspended reporting = 0 \<and>
   requestUpdate (\<lambda>x. x) reporting = reporting\<lparr>requests := 1\<rparr>"
  using requestUpdate_while_reporting [of reporting "\<lambda>x. x"]
  by (simp add: reporting_def newDocumentManager_def)

text \<open>
  C2, as the specification words it, fails: a request made by a subscriber during a report
  is not pending afterwards, and the completed report has fired one update and nothing is
  left to dispatch the request.
\<close>

theorem reentrant_request_dropped_counterexample:
  "p_updating reporting \<and> p_updateSuspended reporting = 0 \<and>
   \<not> p_updateRequested (requestUpdate (\<lambda>x. x) reporting) \<and>
   fired (reportUpdate (requestUpdate (\<lambda>x. x)) newDocumentManager) = [DidUpdate] \<and>
   \<not> p_updateRequested (reportUpdate (requestUpdate (\<lambda>x. x)) newDocumentManager) \<and>
   \<not> p_updating (reportUpdate (requestUpdate (\<lambda>x. x)) newDocumentManager)"
  by (simp add: reporting_def newDocumentManager_def requestUpdate_def reportUpdate_def Let_def
      fire_def)

subsection \<open>The dictionary\<close>

lemma getDocument_Some:
  "getDocument m f = Some d \<Longrightarrow> d \<in> set (p_documents m) \<and> filename d = f"
  by (auto simp: getDocument_def find_Some_iff)

lemma getDocument_None:
  "getDocument m f = None \<longleftrightarrow> f \<notin> filename ` set (p_documents m)"
  by (auto simp: getDocument_def find_None_iff)


lemma find_map_same:
  assumes "\<And>d. filename (upd d) = filename d"
  shows "find (\<lambda>d. filename d = f) (map (\<lambda>d. if filename d = f then upd d else d) xs) =
         map_option upd (find (\<lambda>d. filename d = f) xs)"
  using assms by (induction xs) auto




lemma find_dictSet_same:
  "find (\<lambda>d. filename d = filename d0) (dictSet d0 xs) = Some d0"
  by (induction xs) auto

lemma filter_map_same:
  assumes "\<And>d. filename (upd d) = filename d"
  shows "filter (\<lambda>d. filename d \<noteq> f) (map (\<lambda>d. if filename d = f then upd d else d) xs) =
         filter (\<lambda>d. filename d \<noteq> f) xs"
  using assms by (induction xs) auto

subsection \<open>Requests that cannot report\<close>

lemma requestUpdate_blocked:
  "blocked m \<Longrightarrow>
   requestUpdate L m =
     m\<lparr>requests := Suc (requests m),
       p_updateRequested := (p_updateSuspended m > 0 \<or> p_updateRequested m)\<rparr>"
  by (cases "p_updateSuspended m > 0") (auto simp: blocked_def requestUpdate_def Let_def)

lemma closeDocumentOnServer_fields [simp]:
  "p_rootNames (snd (closeDocumentOnServer d m)) = p_rootNames m"
  "p_grammar (snd (closeDocumentOnServer d m)) = p_grammar m"
  "p_updateSuspended (snd (closeDocumentOnServer d m)) = p_updateSuspended m"
  "p_updateRequested (snd (closeDocumentOnServer d m)) = p_updateRequested m"
  "p_updating (snd (closeDocumentOnServer d m)) = p_updating m"
  "fired (snd (closeDocumentOnServer d m)) = fired m"
  "requests (snd (closeDocumentOnServer d m)) = requests m"
  by (simp_all add: closeDocumentOnServer_def Let_def closeDocument_def)

lemma closeDocumentOnServer_removed:
  "fst (closeDocumentOnServer d m) \<longleftrightarrow> isOpenOnServer d \<and> \<not> isOpenOnClient d"
  by (simp add: closeDocumentOnServer_def Let_def)

lemma closeDocumentOnServer_documents:
  "p_documents (snd (closeDocumentOnServer d m)) =
     (if isOpenOnServer d then
        (if isOpenOnClient d
         then map (\<lambda>x. if filename x = filename d then x\<lparr>isOpenOnServer := False\<rparr> else x)
                (p_documents m)
         else filter (\<lambda>x. filename x \<noteq> filename d) (p_documents m))
      else p_documents m)"
  by (simp add: closeDocumentOnServer_def Let_def filter_map_same)

text \<open>\<open>close\<close> while no report can start: what it leaves behind.\<close>

lemma close_blocked:
  assumes "blocked m"
  shows "p_updating (close h L ident m) = p_updating m"
    and "p_updateSuspended (close h L ident m) = p_updateSuspended m"
    and "p_documents (close h L ident m) =
           (case getDocument m (normalizeFilename h ident) of
              None \<Rightarrow> p_documents m
            | Some d \<Rightarrow> p_documents (snd (closeDocumentOnServer d m)))"
    and "p_grammar (close h L ident m) =
           (case getDocument m (normalizeFilename h ident) of
              None \<Rightarrow> p_grammar m
            | Some d \<Rightarrow> if fst (closeDocumentOnServer d m) then None else p_grammar m)"
proof -
  have b: "\<And>e x. blocked (fire e x) = blocked x" "\<And>x. blocked (invalidateGrammar x) = blocked x"
    "\<And>d x. blocked (snd (closeDocumentOnServer d x)) = blocked x"
    by (simp_all add: blocked_def)
  show "p_updating (close h L ident m) = p_updating m"
    using assms
    by (simp add: close_def Let_def requestUpdate_blocked b split_beta split: option.splits)
  show "p_updateSuspended (close h L ident m) = p_updateSuspended m"
    using assms
    by (simp add: close_def Let_def requestUpdate_blocked b split_beta split: option.splits)
  show "p_documents (close h L ident m) =
           (case getDocument m (normalizeFilename h ident) of
              None \<Rightarrow> p_documents m
            | Some d \<Rightarrow> p_documents (snd (closeDocumentOnServer d m)))"
    using assms
    by (simp add: close_def Let_def requestUpdate_blocked b split_beta split: option.splits)
  show "p_grammar (close h L ident m) =
           (case getDocument m (normalizeFilename h ident) of
              None \<Rightarrow> p_grammar m
            | Some d \<Rightarrow> if fst (closeDocumentOnServer d m) then None else p_grammar m)"
    using assms
    by (simp add: close_def Let_def requestUpdate_blocked b split_beta split: option.splits)
qed

lemma close_blocked_blocked: "blocked m \<Longrightarrow> blocked (close h L ident m)"
  by (simp add: blocked_def close_blocked [unfolded blocked_def])

subsection \<open>The read callback and the compilation\<close>

lemma openDocumentOnServer_fields [simp]:
  "p_rootNames (openDocumentOnServer d m) = p_rootNames m"
  "p_grammar (openDocumentOnServer d m) = p_grammar m"
  "p_updateSuspended (openDocumentOnServer d m) = p_updateSuspended m"
  "p_updateRequested (openDocumentOnServer d m) = p_updateRequested m"
  "p_updating (openDocumentOnServer d m) = p_updating m"
  "fired (openDocumentOnServer d m) = fired m"
  "requests (openDocumentOnServer d m) = requests m"
  by (simp_all add: openDocumentOnServer_def)

lemma readFile_fields [simp]:
  "p_rootNames (snd (readFile h g m)) = p_rootNames m"
  "p_grammar (snd (readFile h g m)) = p_grammar m"
  "p_updateSuspended (snd (readFile h g m)) = p_updateSuspended m"
  "p_updateRequested (snd (readFile h g m)) = p_updateRequested m"
  "p_updating (snd (readFile h g m)) = p_updating m"
  "fired (snd (readFile h g m)) = fired m"
  "requests (snd (readFile h g m)) = requests m"
  by (simp_all add: readFile_def Let_def split: option.splits)


lemma getDocument_setDocument_same:
  assumes "\<And>d. filename (upd d) = filename d"
  shows "getDocument (setDocument f upd m) f = map_option upd (getDocument m f)"
  using assms by (simp add: getDocument_def find_map_same)


lemma getDocument_createDocument_same:
  "getDocument (createDocument f m) f = Some (newGrammarDocument f)"
  using find_dictSet_same [of "newGrammarDocument f" "p_documents m"]
  by (simp add: getDocument_def newGrammarDocument_def)



lemma runCompilation_fields:
  "p_rootNames (snd (runCompilation h k m)) = p_rootNames m \<and>
   p_grammar (snd (runCompilation h k m)) = p_grammar m \<and>
   p_updateSuspended (snd (runCompilation h k m)) = p_updateSuspended m \<and>
   p_updateRequested (snd (runCompilation h k m)) = p_updateRequested m \<and>
   p_updating (snd (runCompilation h k m)) = p_updating m \<and>
   fired (snd (runCompilation h k m)) = fired m \<and>
   requests (snd (runCompilation h k m)) = requests m"
proof (induction k arbitrary: m)
  case Done
  show ?case by simp
next
  case (ReadFile g k)
  obtain r m1 where r: "readFile h g m = (r, m1)" by (cases "readFile h g m")
  have step: "p_rootNames m1 = p_rootNames m \<and> p_grammar m1 = p_grammar m \<and>
      p_updateSuspended m1 = p_updateSuspended m \<and> p_updateRequested m1 = p_updateRequested m \<and>
      p_updating m1 = p_updating m \<and> fired m1 = fired m \<and> requests m1 = requests m"
    using readFile_fields [of h g m] unfolding r by simp
  have "k r \<in> range k" by simp
  from ReadFile [OF this, of m1] step show ?case
    by (simp add: r split_beta)
qed


lemma buildGrammar_fields:
  "p_grammar (snd (buildGrammar h c m)) =
     Some (Grammar (map filename (filter isOpenOnClient (p_documents m))))"
  "p_updateSuspended (snd (buildGrammar h c m)) = p_updateSuspended m"
  "p_updateRequested (snd (buildGrammar h c m)) = p_updateRequested m"
  "p_updating (snd (buildGrammar h c m)) = p_updating m"
  "fired (snd (buildGrammar h c m)) = fired m"
  "requests (snd (buildGrammar h c m)) = requests m"
  by (simp_all add: buildGrammar_def Let_def runCompilation_fields)


subsection \<open>\<open>close\<close> and the sweep while no report can start\<close>


lemma sweep_blocked:
  "blocked m \<Longrightarrow> blocked (sweep h L ds m) \<and>
     p_updating (sweep h L ds m) = p_updating m \<and>
     p_updateSuspended (sweep h L ds m) = p_updateSuspended m"
proof (induction ds arbitrary: m)
  case Nil
  then show ?case by simp
next
  case (Cons x ds)
  let ?m' = "if \<not> marked x \<and> \<not> isOpenOnClient x then close h L (Path (filename x)) m else m"
  from Cons.prems have "blocked ?m'" "p_updating ?m' = p_updating m"
    "p_updateSuspended ?m' = p_updateSuspended m"
    by (simp_all add: close_blocked_blocked close_blocked)
  with Cons.IH [of ?m'] show ?case by simp
qed



lemma close_grammar_or_names:
  assumes "blocked m"
  shows "p_grammar (close h L ident m) = None \<or>
         (p_grammar (close h L ident m) = p_grammar m \<and>
          map filename (p_documents (close h L ident m)) = map filename (p_documents m))"
proof -
  have "map filename (map (\<lambda>x. if filename x = g then x\<lparr>isOpenOnServer := False\<rparr> else x) xs) =
        map filename xs" for g and xs :: "GrammarDocument list"
    by (induction xs) auto
  with assms show ?thesis
    by (auto simp: close_blocked closeDocumentOnServer_documents closeDocumentOnServer_removed
        split: option.splits)
qed

lemma sweep_grammar_or_names:
  "blocked m \<Longrightarrow>
   p_grammar (sweep h L ds m) = None \<or>
   (p_grammar (sweep h L ds m) = p_grammar m \<and>
    map filename (p_documents (sweep h L ds m)) = map filename (p_documents m))"
proof (induction ds arbitrary: m)
  case Nil
  then show ?case by simp
next
  case (Cons x ds)
  let ?m' = "if \<not> marked x \<and> \<not> isOpenOnClient x then close h L (Path (filename x)) m else m"
  from Cons.prems have b: "blocked ?m'" by (simp add: close_blocked_blocked)
  from Cons.prems have step: "p_grammar ?m' = None \<or>
      (p_grammar ?m' = p_grammar m \<and> map filename (p_documents ?m') = map filename (p_documents m))"
    using close_grammar_or_names [of m h L "Path (filename x)"] by auto
  from Cons.IH [OF b] step show ?case by auto
qed

subsection \<open>The rebuild\<close>

lemma getDocument_cong: "p_documents m = p_documents m' \<Longrightarrow> getDocument m f = getDocument m' f"
  by (simp add: getDocument_def)

lemma refreshGrammar_documents:
  "p_documents (refreshGrammar h c L m) =
     p_documents (sweep h L (p_documents (snd (buildGrammar h c (m\<lparr>p_updating := True\<rparr>))))
                   (snd (buildGrammar h c (m\<lparr>p_updating := True\<rparr>))))"
  by (simp add: refreshGrammar_def Let_def split_beta)

lemma refreshGrammar_grammar:
  "p_grammar (refreshGrammar h c L m) =
     p_grammar (sweep h L (p_documents (snd (buildGrammar h c (m\<lparr>p_updating := True\<rparr>))))
                   (snd (buildGrammar h c (m\<lparr>p_updating := True\<rparr>))))"
  by (simp add: refreshGrammar_def Let_def split_beta)

lemma buildGrammar_blocked: "blocked (snd (buildGrammar h c (m\<lparr>p_updating := True\<rparr>)))"
  by (simp add: blocked_def buildGrammar_fields)

text \<open>
  The read callback opens an untracked, readable file on the server only, and marks it.
\<close>

lemma readFile_opens_on_server:
  assumes "getDocument m f = None" and "host_readFile h f = Some t"
  shows "fst (readFile h f m) = Some t"
    and "getDocument (snd (readFile h f m)) f =
           Some ((newGrammarDocument f)\<lparr>text' := Some t, isOpenOnServer := True, marked := True\<rparr>)"
  using assms
  by (simp_all add: readFile_def Let_def openDocumentOnServer_def newGrammarDocument_def
      getDocument_setDocument_same getDocument_createDocument_same)




text \<open>
  C10. When the sweep at the end of a rebuild removes a document from the registry, the
  grammar that \<open>refreshGrammar\<close> had assigned is invalidated again by \<open>close\<close>, and
  the getter \<open>grammar\<close> whose call ran that rebuild returns \<open>undefined\<close>.
\<close>

theorem grammar_undefined_after_sweep:
  assumes "p_grammar m = None"
    and "getDocument (snd (buildGrammar h c (m\<lparr>p_updating := True\<rparr>))) f \<noteq> None"
    and "getDocument (refreshGrammar h c L m) f = None"
  shows "p_grammar (snd (buildGrammar h c (m\<lparr>p_updating := True\<rparr>))) \<noteq> None \<and>
         fst (grammar h c L m) = None"
proof -
  let ?m2 = "snd (buildGrammar h c (m\<lparr>p_updating := True\<rparr>))"
  let ?m3 = "sweep h L (p_documents ?m2) ?m2"
  have "getDocument ?m3 f = None"
    using assms(3) getDocument_cong [OF refreshGrammar_documents, of h c L m f] by simp
  with assms(2) have "map filename (p_documents ?m3) \<noteq> map filename (p_documents ?m2)"
    by (metis getDocument_None set_map)
  with sweep_grammar_or_names [OF buildGrammar_blocked, of h L "p_documents ?m2" h c m]
  have "p_grammar ?m3 = None" by blast
  then have "p_grammar (refreshGrammar h c L m) = None"
    by (simp add: refreshGrammar_grammar)
  with assms(1) show ?thesis
    by (simp add: grammar_def Let_def buildGrammar_fields)
qed

theorem grammar_undefined_after_sweep_witness:
  "p_grammar dependencyDropped = None \<and>
   getDocument (snd (buildGrammar exampleHost exampleCompiler
                       (dependencyDropped\<lparr>p_updating := True\<rparr>))) (js ''/b.grammar'') \<noteq> None \<and>
   getDocument (refreshGrammar exampleHost exampleCompiler exampleListener dependencyDropped)
     (js ''/b.grammar'') = None \<and>
   fst (grammar exampleHost exampleCompiler exampleListener dependencyDropped) = None"
proof -
  have 1: "p_grammar dependencyDropped = None"
    by code_simp
  have 2: "getDocument (snd (buildGrammar exampleHost exampleCompiler
                       (dependencyDropped\<lparr>p_updating := True\<rparr>))) (js ''/b.grammar'') \<noteq> None"
    by code_simp
  have 3: "getDocument (refreshGrammar exampleHost exampleCompiler exampleListener dependencyDropped)
     (js ''/b.grammar'') = None"
    by code_simp
  from grammar_undefined_after_sweep [OF 1 2 3] 1 2 3 show ?thesis by simp
qed

subsection \<open>\<open>close\<close>\<close>

text \<open>
  On a document that is open on the client, \<open>close\<close> fires \<open>closed-on-server\<close>
  exactly when the document was not open on the server.
\<close>

lemma close_while_client_open:
  assumes "getDocument m (normalizeFilename h ident) = Some d" and "isOpenOnClient d"
  shows "fired (close h L ident m) =
           fired m @ (if isOpenOnServer d then [] else [DidCloseOnServer (filename d)])"
    and "getDocument (close h L ident m) (normalizeFilename h ident) =
           Some (d\<lparr>isOpenOnServer := False\<rparr>)"
proof -
  from assms(1) have fn: "filename d = normalizeFilename h ident"
    by (simp add: getDocument_Some)
  from assms show "fired (close h L ident m) =
           fired m @ (if isOpenOnServer d then [] else [DidCloseOnServer (filename d)])"
    by (simp add: close_def Let_def split_beta closeDocumentOnServer_removed)
  show "getDocument (close h L ident m) (normalizeFilename h ident) =
           Some (d\<lparr>isOpenOnServer := False\<rparr>)"
  proof (cases "isOpenOnServer d")
    case True
    with assms fn show ?thesis
      by (simp add: close_def Let_def split_beta closeDocumentOnServer_removed
          getDocument_def [of "snd (closeDocumentOnServer d m)"] closeDocumentOnServer_documents
          find_map_same)
         (simp add: getDocument_def)
  next
    case False
    then have "d\<lparr>isOpenOnServer := False\<rparr> = d" by simp
    moreover from False have "closeDocumentOnServer d m = (False, m)"
      by (simp add: closeDocumentOnServer_def)
    ultimately show ?thesis
      using assms by (simp add: close_def Let_def getDocument_def)
  qed
qed

text \<open>
  On a document that is open on the server only, \<open>close\<close> removes the document,
  invalidates the grammar, fires \<open>closed\<close> and requests an update.
\<close>

lemma close_server_only:
  assumes "getDocument m (normalizeFilename h ident) = Some d"
    and "isOpenOnServer d" and "\<not> isOpenOnClient d"
  shows "close h L ident m =
           requestUpdate L (fire (DidClose (filename d))
             (invalidateGrammar (snd (closeDocument (filename d) m))))"
proof -
  have "snd (closeDocumentOnServer d m) = snd (closeDocument (filename d) m)"
    using assms(2,3)
    by (simp add: closeDocumentOnServer_def Let_def closeDocument_def setDocument_def
        filter_map_same)
  with assms show ?thesis
    by (simp add: close_def Let_def split_beta closeDocumentOnServer_removed)
qed

text \<open>
  C3 at a document that is open on both sides: \<open>close\<close> clears \<open>isOpenOnServer\<close>,
  the document stays in the registry, and no event is fired, where the rule asks for
  \<open>closed-on-server\<close>.
\<close>

theorem close_open_on_both_sides:
  "map_option (\<lambda>d. (isOpenOnClient d, isOpenOnServer d))
     (getDocument openOnBothSides (js ''/a.grammar'')) = Some (True, True) \<and>
   map_option (\<lambda>d. (isOpenOnClient d, isOpenOnServer d))
     (getDocument (close exampleHost exampleListener (Path (js ''/a.grammar'')) openOnBothSides)
        (js ''/a.grammar'')) = Some (True, False) \<and>
   fired (close exampleHost exampleListener (Path (js ''/a.grammar'')) openOnBothSides) =
     fired openOnBothSides"
  by code_simp

subsection \<open>Opening again with the same text\<close>

lemma getOrCreateDocument_tracked:
  "getDocument m f = Some d \<Longrightarrow> getOrCreateDocument f m = (False, d, m)"
  by (simp add: getOrCreateDocument_def)

lemma openDocumentOnClient_fields [simp]:
  "p_rootNames (openDocumentOnClient d m) = p_rootNames m"
  "p_grammar (openDocumentOnClient d m) = p_grammar m"
  "p_updateSuspended (openDocumentOnClient d m) = p_updateSuspended m"
  "p_updateRequested (openDocumentOnClient d m) = p_updateRequested m"
  "p_updating (openDocumentOnClient d m) = p_updating m"
  "fired (openDocumentOnClient d m) = fired m"
  "requests (openDocumentOnClient d m) = requests m"
  by (simp_all add: openDocumentOnClient_def)

text \<open>
  C7. Idempotent content: when a document is tracked and a client open notification, or a
  server-side \<open>open\<close>, brings the text the document already has, the cached grammar and
  root names stay as they are, \<open>requestUpdate\<close> is not called, and the only event that
  can fire is the one the code fires when that side was not open before (opened-on-client in
  the notification, closed-on-server in \<open>open\<close>); no content-changed and no update
  event fires.
\<close>

theorem second_open_identical_text:
  assumes "getDocument m f = Some d" and "text' d = Some t"
  shows "(normalizeFilename h (TextDocumentIdentifier u) = f \<longrightarrow>
            p_grammar (handleOpenClientDocument h L u t m) = p_grammar m \<and>
            p_rootNames (handleOpenClientDocument h L u t m) = p_rootNames m \<and>
            requests (handleOpenClientDocument h L u t m) = requests m \<and>
            fired (handleOpenClientDocument h L u t m) =
              fired m @ (if isOpenOnClient d then [] else [DidOpenOnClient f])) \<and>
         (normalizeFilename h ident = f \<and> host_readFile h f = Some t \<longrightarrow>
            p_grammar (snd (open h L ident m)) = p_grammar m \<and>
            p_rootNames (snd (open h L ident m)) = p_rootNames m \<and>
            requests (snd (open h L ident m)) = requests m \<and>
            fired (snd (open h L ident m)) =
              fired m @ (case normalizeUri ident of
                           Inl e \<Rightarrow> []
                         | Inr v \<Rightarrow> if isOpenOnServer d then [] else [DidCloseOnServer f]))"
proof -
  from assms(1) have fn: "filename d = f" by (simp add: getDocument_Some)
  show ?thesis
  proof (intro conjI impI)
    assume n: "normalizeFilename h (TextDocumentIdentifier u) = f"
    from assms fn n show "p_grammar (handleOpenClientDocument h L u t m) = p_grammar m"
      by (simp add: handleOpenClientDocument_def getOrCreateDocument_tracked Let_def)
    from assms fn n show "p_rootNames (handleOpenClientDocument h L u t m) = p_rootNames m"
      by (simp add: handleOpenClientDocument_def getOrCreateDocument_tracked Let_def)
    from assms fn n show "requests (handleOpenClientDocument h L u t m) = requests m"
      by (simp add: handleOpenClientDocument_def getOrCreateDocument_tracked Let_def)
    from assms fn n show "fired (handleOpenClientDocument h L u t m) =
              fired m @ (if isOpenOnClient d then [] else [DidOpenOnClient f])"
      by (simp add: handleOpenClientDocument_def getOrCreateDocument_tracked Let_def)
  next
    assume n: "normalizeFilename h ident = f \<and> host_readFile h f = Some t"
    from assms fn n show "p_grammar (snd (open h L ident m)) = p_grammar m"
      by (simp add: open_def getOrCreateDocument_tracked Let_def split: sum.splits)
    from assms fn n show "p_rootNames (snd (open h L ident m)) = p_rootNames m"
      by (simp add: open_def getOrCreateDocument_tracked Let_def split: sum.splits)
    from assms fn n show "requests (snd (open h L ident m)) = requests m"
      by (simp add: open_def getOrCreateDocument_tracked Let_def split: sum.splits)
    from assms fn n show "fired (snd (open h L ident m)) =
              fired m @ (case normalizeUri ident of
                           Inl e \<Rightarrow> []
                         | Inr v \<Rightarrow> if isOpenOnServer d then [] else [DidCloseOnServer f])"
      by (simp add: open_def getOrCreateDocument_tracked Let_def split: sum.splits)
  qed
qed

theorem second_open_identical_text_witness:
  "map_option text' (getDocument withDependency (js ''/a.grammar'')) = Some (Some (js ''A'')) \<and>
   normalizeFilename exampleHost (TextDocumentIdentifier (js ''file:///a.grammar'')) =
     js ''/a.grammar'' \<and>
   normalizeFilename exampleHost (Path (js ''/a.grammar'')) = js ''/a.grammar'' \<and>
   host_readFile exampleHost (js ''/a.grammar'') = Some (js ''A'') \<and>
   p_grammar (handleOpenClientDocument exampleHost exampleListener (js ''file:///a.grammar'')
                (js ''A'') withDependency) = p_grammar withDependency \<and>
   requests (handleOpenClientDocument exampleHost exampleListener (js ''file:///a.grammar'')
                (js ''A'') withDependency) = requests withDependency \<and>
   fired (handleOpenClientDocument exampleHost exampleListener (js ''file:///a.grammar'')
                (js ''A'') withDependency) = fired withDependency \<and>
   p_grammar (snd (open exampleHost exampleListener (Path (js ''/a.grammar'')) withDependency)) =
     p_grammar withDependency \<and>
   requests (snd (open exampleHost exampleListener (Path (js ''/a.grammar'')) withDependency)) =
     requests withDependency \<and>
   fired (snd (open exampleHost exampleListener (Path (js ''/a.grammar'')) withDependency)) =
     fired withDependency @ [DidCloseOnServer (js ''/a.grammar'')]"
proof -
  define d where "d = \<lparr> uri = Some (js ''file:///a.grammar''), filename = js ''/a.grammar'',
      text' = Some (js ''A''), isOpenOnClient = True, isOpenOnServer = False, marked = True \<rparr>"
  have d: "getDocument withDependency (js ''/a.grammar'') = Some d"
    unfolding d_def by code_simp
  have t: "text' d = Some (js ''A'')" and c: "isOpenOnClient d" and s: "\<not> isOpenOnServer d"
    by (simp_all add: d_def)
  have n1: "normalizeFilename exampleHost (TextDocumentIdentifier (js ''file:///a.grammar'')) =
     js ''/a.grammar''" by code_simp
  have n2: "normalizeFilename exampleHost (Path (js ''/a.grammar'')) = js ''/a.grammar''"
    by code_simp
  have r: "host_readFile exampleHost (js ''/a.grammar'') = Some (js ''A'')" by code_simp
  have u: "normalizeUri (Path (js ''/a.grammar'')) = Inr (js ''file:///a.grammar'')" by code_simp
  from second_open_identical_text [OF d t, of exampleHost "js ''file:///a.grammar''"
      exampleListener "Path (js ''/a.grammar'')"] d t c s n1 n2 r u
  show ?thesis by simp
qed

subsection \<open>Batching\<close>

lemma quiet_refl [simp]: "quiet m m"
  by (simp add: quiet_def)

lemma quiet_trans: "quiet m m' \<Longrightarrow> quiet m' m'' \<Longrightarrow> quiet m m''"
  by (auto simp: quiet_def)

lemma quiet_same: "fired m' = fired m \<Longrightarrow> quiet m m'"
  by (simp add: quiet_def)

lemma getOrCreateDocument_fields [simp]:
  "p_rootNames (snd (snd (getOrCreateDocument f m))) = p_rootNames m"
  "p_grammar (snd (snd (getOrCreateDocument f m))) = p_grammar m"
  "p_updateSuspended (snd (snd (getOrCreateDocument f m))) = p_updateSuspended m"
  "p_updateRequested (snd (snd (getOrCreateDocument f m))) = p_updateRequested m"
  "p_updating (snd (snd (getOrCreateDocument f m))) = p_updating m"
  "fired (snd (snd (getOrCreateDocument f m))) = fired m"
  "requests (snd (snd (getOrCreateDocument f m))) = requests m"
  "text' (fst (snd (getOrCreateDocument f m))) = textOf m f"
  by (simp_all add: getOrCreateDocument_def textOf_def newGrammarDocument_def split: option.splits)

lemma blocked_steps [simp]:
  "blocked (fire e m) = blocked m"
  "blocked (invalidateGrammar m) = blocked m"
  "blocked (setDocument f upd m) = blocked m"
  "blocked (openDocumentOnClient d m) = blocked m"
  "blocked (openDocumentOnServer d m) = blocked m"
  "blocked (snd (snd (getOrCreateDocument f m))) = blocked m"
  "blocked (snd (closeDocumentOnServer d m)) = blocked m"
  by (simp_all add: blocked_def)

text \<open>A mutation while updates are suspended.\<close>

lemma mutate_suspended:
  assumes "p_updateSuspended m > 0"
  shows "p_updateSuspended (mutate h L x m) = p_updateSuspended m"
    and "p_updating (mutate h L x m) = p_updating m"
    and "quiet m (mutate h L x m)"
    and "requests (mutate h L x m) = requests m + (if changesContent h x m then 1 else 0)"
    and "p_updateRequested (mutate h L x m) \<longleftrightarrow> p_updateRequested m \<or> changesContent h x m"
proof -
  from assms have b: "blocked m" by (simp add: blocked_def)
  note defs = handleOpenClientDocument_def handleUpdateClientDocument_def open_def Let_def
    split_beta requestUpdate_blocked quiet_def
  from assms b show "p_updateSuspended (mutate h L x m) = p_updateSuspended m"
    by (cases x) (simp_all add: defs split: option.splits sum.splits)
  from assms b show "p_updating (mutate h L x m) = p_updating m"
    by (cases x) (simp_all add: defs split: option.splits sum.splits)
  from assms b show "quiet m (mutate h L x m)"
    by (cases x) (simp_all add: defs split: option.splits sum.splits)
  from assms b show "requests (mutate h L x m) = requests m + (if changesContent h x m then 1 else 0)"
    by (cases x) (simp_all add: defs split: option.splits sum.splits)
  from assms b show "p_updateRequested (mutate h L x m) \<longleftrightarrow> p_updateRequested m \<or> changesContent h x m"
    by (cases x) (auto simp: defs split: option.splits sum.splits)
qed

lemma runMutations_suspended:
  assumes "p_updateSuspended m > 0" and "allChangeContent h L xs m"
  shows "p_updateSuspended (runMutations h L xs m) = p_updateSuspended m \<and>
         p_updating (runMutations h L xs m) = p_updating m \<and>
         quiet m (runMutations h L xs m) \<and>
         requests (runMutations h L xs m) = requests m + length xs \<and>
         (p_updateRequested (runMutations h L xs m) \<longleftrightarrow> p_updateRequested m \<or> xs \<noteq> [])"
  using assms
proof (induction xs arbitrary: m)
  case Nil
  then show ?case by simp
next
  case (Cons x xs)
  let ?m' = "mutate h L x m"
  from Cons.prems have ch: "changesContent h x m" and rest: "allChangeContent h L xs ?m'"
    by simp_all
  note step = mutate_suspended [OF Cons.prems(1), of h L x]
  from step(1) Cons.prems(1) have s': "p_updateSuspended ?m' > 0" by simp
  from Cons.IH [OF s' rest] step ch show ?case
    by (auto intro: quiet_trans)
qed

subsection \<open>The subscriber fires no update\<close>

lemma close_quiet: "blocked m \<Longrightarrow> quiet m (close h L ident m)"
  by (simp add: close_def Let_def split_beta requestUpdate_blocked quiet_def
      split: option.splits)

lemma sweep_quiet: "blocked m \<Longrightarrow> quiet m (sweep h L ds m)"
proof (induction ds arbitrary: m)
  case Nil
  then show ?case by simp
next
  case (Cons x ds)
  let ?m' = "if \<not> marked x \<and> \<not> isOpenOnClient x then close h L (Path (filename x)) m else m"
  from Cons.prems have "blocked ?m'" and "quiet m ?m'"
    by (simp_all add: close_blocked_blocked close_quiet)
  with Cons.IH [of ?m'] show ?case by (auto intro: quiet_trans)
qed

lemma refreshGrammar_quiet: "quiet m (refreshGrammar h c L m)"
proof -
  let ?m2 = "snd (buildGrammar h c (m\<lparr>p_updating := True\<rparr>))"
  have "quiet m ?m2" by (simp add: quiet_same buildGrammar_fields)
  moreover have "quiet ?m2 (sweep h L (p_documents ?m2) ?m2)"
    by (rule sweep_quiet [OF buildGrammar_blocked])
  moreover have "fired (refreshGrammar h c L m) = fired (sweep h L (p_documents ?m2) ?m2)"
    by (simp add: refreshGrammar_def Let_def split_beta)
  ultimately show ?thesis by (auto simp: quiet_def)
qed

lemma refreshGrammar_flags:
  "p_updating (refreshGrammar h c L m) = p_updating m"
  "p_updateSuspended (refreshGrammar h c L m) = p_updateSuspended m"
  using sweep_blocked [OF buildGrammar_blocked, of h L _ h c m]
  by (simp_all add: refreshGrammar_def Let_def split_beta buildGrammar_fields)

lemma didUpdate_quiet: "quiet m (didUpdate h c m)"
  by (simp add: didUpdate_def onDocumentsUpdated_def grammar_def Let_def split_beta
      refreshGrammar_quiet split: option.splits)

lemma didUpdate_flags:
  "p_updating (didUpdate h c m) = p_updating m"
  "p_updateSuspended (didUpdate h c m) = p_updateSuspended m"
  by (simp_all add: didUpdate_def onDocumentsUpdated_def grammar_def Let_def split_beta
      refreshGrammar_flags split: option.splits)

text \<open>
  C4, as the code has it. Batching: from an idle manager (no report is in progress) whose
  updates are not suspended, after \<open>suspendUpdates\<close>, a non-empty list of mutations
  that each change content (each calls \<open>requestUpdate\<close> once) fires no update event;
  the \<open>resumeUpdates\<close> that follows brings the counter back to zero and fires exactly
  one update event, at once, and the server's subscriber that runs on it fires no further
  one.
\<close>

theorem batching:
  assumes "p_updateSuspended m = 0" and "\<not> p_updating m" and "xs \<noteq> []"
    and "allChangeContent h (didUpdate h c) xs (suspendUpdates m)"
  shows "requests (runMutations h (didUpdate h c) xs (suspendUpdates m)) = requests m + length xs \<and>
         quiet m (runMutations h (didUpdate h c) xs (suspendUpdates m)) \<and>
         (\<exists>es. fired (resumeUpdates (didUpdate h c)
                         (runMutations h (didUpdate h c) xs (suspendUpdates m))) =
                 fired (runMutations h (didUpdate h c) xs (suspendUpdates m)) @ DidUpdate # es \<and>
               DidUpdate \<notin> set es) \<and>
         p_updateSuspended (resumeUpdates (didUpdate h c)
                              (runMutations h (didUpdate h c) xs (suspendUpdates m))) = 0"
proof -
  let ?L = "didUpdate h c"
  let ?s = "suspendUpdates m"
  let ?m1 = "runMutations h ?L xs ?s"
  have s: "p_updateSuspended ?s > 0" by (simp add: suspendUpdates_def)
  from runMutations_suspended [OF s assms(4)] assms(1,2,3)
  have susp: "p_updateSuspended ?m1 = 1" and upd: "\<not> p_updating ?m1"
    and q: "quiet ?s ?m1" and req: "requests ?m1 = requests m + length xs"
    and pending: "p_updateRequested ?m1"
    by (simp_all add: suspendUpdates_def)
  from q have q': "quiet m ?m1" by (simp add: quiet_def suspendUpdates_def)
  let ?r = "fire DidUpdate (?m1\<lparr>p_updateSuspended := 0, p_updating := True,
                                p_updateRequested := False\<rparr>)"
  have res: "resumeUpdates ?L ?m1 = (?L ?r)\<lparr>p_updating := False\<rparr>"
    using susp upd pending by (simp add: resumeUpdates_def reportUpdate_def Let_def)
  from didUpdate_quiet [of ?r h c] obtain es where
    es: "fired (?L ?r) = fired ?r @ es" "DidUpdate \<notin> set es"
    by (auto simp: quiet_def)
  have "fired (resumeUpdates ?L ?m1) = fired ?m1 @ DidUpdate # es"
    using es(1) by (simp add: res)
  moreover have "p_updateSuspended (resumeUpdates ?L ?m1) = 0"
    by (simp add: res didUpdate_flags)
  ultimately show ?thesis using req q' es(2) by blast
qed

theorem batching_witness:
  "p_updateSuspended newDocumentManager = 0 \<and> \<not> p_updating newDocumentManager \<and>
   allChangeContent exampleHost exampleListener
     [ClientOpen (js ''file:///b.grammar'') (js ''B1''),
      ClientChange (js ''file:///b.grammar'') [js ''B2''],
      ClientChange (js ''file:///b.grammar'') [js ''B3'']]
     (suspendUpdates newDocumentManager) \<and>
   requests (runMutations exampleHost exampleListener
     [ClientOpen (js ''file:///b.grammar'') (js ''B1''),
      ClientChange (js ''file:///b.grammar'') [js ''B2''],
      ClientChange (js ''file:///b.grammar'') [js ''B3'']]
     (suspendUpdates newDocumentManager)) = 3 \<and>
   quiet newDocumentManager (runMutations exampleHost exampleListener
     [ClientOpen (js ''file:///b.grammar'') (js ''B1''),
      ClientChange (js ''file:///b.grammar'') [js ''B2''],
      ClientChange (js ''file:///b.grammar'') [js ''B3'']]
     (suspendUpdates newDocumentManager)) \<and>
   (\<exists>es. fired (resumeUpdates exampleListener (runMutations exampleHost exampleListener
     [ClientOpen (js ''file:///b.grammar'') (js ''B1''),
      ClientChange (js ''file:///b.grammar'') [js ''B2''],
      ClientChange (js ''file:///b.grammar'') [js ''B3'']]
     (suspendUpdates newDocumentManager))) =
       fired (runMutations exampleHost exampleListener
     [ClientOpen (js ''file:///b.grammar'') (js ''B1''),
      ClientChange (js ''file:///b.grammar'') [js ''B2''],
      ClientChange (js ''file:///b.grammar'') [js ''B3'']]
     (suspendUpdates newDocumentManager)) @ DidUpdate # es \<and> DidUpdate \<notin> set es)"
proof -
  let ?xs = "[ClientOpen (js ''file:///b.grammar'') (js ''B1''),
      ClientChange (js ''file:///b.grammar'') [js ''B2''],
      ClientChange (js ''file:///b.grammar'') [js ''B3'']]"
  have 1: "p_updateSuspended newDocumentManager = 0" and 2: "\<not> p_updating newDocumentManager"
    by (simp_all add: newDocumentManager_def)
  have 3: "?xs \<noteq> []" by simp
  have 4: "allChangeContent exampleHost (didUpdate exampleHost exampleCompiler) ?xs
             (suspendUpdates newDocumentManager)"
    by code_simp
  have 5: "requests newDocumentManager = 0" by (simp add: newDocumentManager_def)
  from batching [OF 1 2 3 4] 1 2 4 5 show ?thesis
    by (simp add: exampleListener_def)
qed

text \<open>
  While a report is in progress, the same sequence fires no update event: when
  \<open>resumeUpdates\<close> brings the counter to zero, \<open>reportUpdate\<close> returns at its
  guard, and the request stays recorded.
\<close>

lemma batching_while_reporting:
  assumes "p_updateSuspended m = 0" and "p_updating m" and "xs \<noteq> []"
    and "allChangeContent h L xs (suspendUpdates m)"
  shows "quiet m (resumeUpdates L (runMutations h L xs (suspendUpdates m)))"
    and "p_updateRequested (resumeUpdates L (runMutations h L xs (suspendUpdates m)))"
    and "p_updateSuspended (resumeUpdates L (runMutations h L xs (suspendUpdates m))) = 0"
proof -
  let ?s = "suspendUpdates m"
  let ?m1 = "runMutations h L xs ?s"
  have s: "p_updateSuspended ?s > 0" by (simp add: suspendUpdates_def)
  from runMutations_suspended [OF s assms(4)] assms(1,2,3)
  have susp: "p_updateSuspended ?m1 = 1" and upd: "p_updating ?m1"
    and q: "quiet ?s ?m1" and pending: "p_updateRequested ?m1"
    by (simp_all add: suspendUpdates_def)
  have res: "resumeUpdates L ?m1 = ?m1\<lparr>p_updateSuspended := 0\<rparr>"
    using susp upd pending by (simp add: resumeUpdates_def Let_def)
  from q have q': "quiet m ?m1" by (simp add: quiet_def suspendUpdates_def)
  have "fired (resumeUpdates L ?m1) = fired ?m1" by (simp add: res)
  with q' show "quiet m (resumeUpdates L ?m1)" by (simp add: quiet_def)
  from pending show "p_updateRequested (resumeUpdates L ?m1)" by (simp add: res)
  show "p_updateSuspended (resumeUpdates L ?m1) = 0" by (simp add: res)
qed

text \<open>
  C4, as the specification words it, fails when the sequence runs while a report is in
  progress: every mutation changes content and calls \<open>requestUpdate\<close>,
  \<open>resumeUpdates\<close> brings the counter back to zero, no update event fires and the
  request stays recorded.
\<close>

theorem batching_while_reporting_counterexample:
  "p_updateSuspended reporting = 0 \<and>
   allChangeContent exampleHost exampleListener
     [ClientOpen (js ''file:///b.grammar'') (js ''B1''),
      ClientChange (js ''file:///b.grammar'') [js ''B2'']]
     (suspendUpdates reporting) \<and>
   requests (runMutations exampleHost exampleListener
     [ClientOpen (js ''file:///b.grammar'') (js ''B1''),
      ClientChange (js ''file:///b.grammar'') [js ''B2'']]
     (suspendUpdates reporting)) = 2 \<and>
   p_updateSuspended (resumeUpdates exampleListener (runMutations exampleHost exampleListener
     [ClientOpen (js ''file:///b.grammar'') (js ''B1''),
      ClientChange (js ''file:///b.grammar'') [js ''B2'']]
     (suspendUpdates reporting))) = 0 \<and>
   DidUpdate \<notin> set (fired (resumeUpdates exampleListener (runMutations exampleHost exampleListener
     [ClientOpen (js ''file:///b.grammar'') (js ''B1''),
      ClientChange (js ''file:///b.grammar'') [js ''B2'']]
     (suspendUpdates reporting)))) \<and>
   p_updateRequested (resumeUpdates exampleListener (runMutations exampleHost exampleListener
     [ClientOpen (js ''file:///b.grammar'') (js ''B1''),
      ClientChange (js ''file:///b.grammar'') [js ''B2'']]
     (suspendUpdates reporting)))"
  by code_simp

subsection \<open>The request handlers\<close>

lemma getSourceFile_fault:
  "fst (getSourceFile lib h c ident m) = Inl e \<Longrightarrow> e = TypeError"
  by (auto simp: getSourceFile_def Let_def split_beta split: option.splits)

text \<open>
  When the getter \<open>grammar\<close> returns \<open>undefined\<close>, each of the three handlers throws.
\<close>

lemma handlers_without_grammar:
  assumes "fst (grammar h c (didUpdate h c) m) = None"
  shows "fst (onDefinition lib h c u position m) = Inl TypeError"
    and "fst (onReferences lib h c u position m) = Inl TypeError"
    and "fst (onRenameRequest lib h c ident position newName m) = Inl TypeError"
  using assms
  by (auto simp: onDefinition_def onReferences_def onRenameRequest_def Let_def split_beta
      split: sum.splits dest: getSourceFile_fault)

text \<open>
  \<open>onDefinition\<close> and \<open>onReferences\<close> return only when the library has built a
  navigator for what \<open>getSourceFile\<close> gave for the locator.
\<close>

lemma onDefinition_returns:
  assumes "fst (onDefinition lib h c u position m) = Inr r"
  shows "\<exists>G G' navigator.
           lib_createNavigator lib G
             (lib_getSourceFile lib G' (normalizeFilename h (TextDocumentIdentifier u))) =
           Inr (Some navigator)"
  using assms
  by (auto simp: onDefinition_def getSourceFile_def Let_def split_beta
      split: sum.splits option.splits)

lemma onReferences_returns:
  assumes "fst (onReferences lib h c u position m) = Inr r"
  shows "\<exists>G G' navigator.
           lib_createNavigator lib G
             (lib_getSourceFile lib G' (normalizeFilename h (TextDocumentIdentifier u))) =
           Inr (Some navigator)"
  using assms
  by (auto simp: onReferences_def getSourceFile_def Let_def split_beta
      split: sum.splits option.splits)

text \<open>
  With the grammar cached, \<open>onRenameRequest\<close> returns \<open>undefined\<close> when the library
  gives no navigator; \<open>onDefinition\<close> and \<open>onReferences\<close> throw there.
\<close>

lemma handlers_without_navigator:
  assumes "p_grammar m = Some G"
    and "lib_createNavigator lib G (lib_getSourceFile lib G (normalizeFilename h ident)) = Inr None"
  shows "fst (onRenameRequest lib h c ident position newName m) = Inr None"
    and "ident = TextDocumentIdentifier u \<Longrightarrow>
         fst (onDefinition lib h c u position m) = Inl TypeError"
    and "ident = TextDocumentIdentifier u \<Longrightarrow>
         fst (onReferences lib h c u position m) = Inl TypeError"
  using assms
  by (auto simp: onDefinition_def onReferences_def onRenameRequest_def getSourceFile_def
      grammar_def Let_def)

text \<open>
  C6 at a locator without a tracked document, while \<open>a.grammar\<close> is open and the grammar
  is cached: the rename handler returns \<open>undefined\<close>, the definition and references
  handlers throw \<open>TypeError\<close>, where for the tracked \<open>a.grammar\<close> they return the empty
  list.
\<close>

theorem handlers_on_untracked_locator:
  "getDocument withDependency
     (normalizeFilename exampleHost (TextDocumentIdentifier (js ''file:///u.grammar''))) = None \<and>
   fst (onRenameRequest exampleLibrary exampleHost exampleCompiler
          (TextDocumentIdentifier (js ''file:///u.grammar'')) 0 (js ''Y'') withDependency) =
     Inr None \<and>
   fst (onDefinition exampleLibrary exampleHost exampleCompiler (js ''file:///u.grammar'') 0
          withDependency) = Inl TypeError \<and>
   fst (onReferences exampleLibrary exampleHost exampleCompiler (js ''file:///u.grammar'') 0
          withDependency) = Inl TypeError \<and>
   fst (onDefinition exampleLibrary exampleHost exampleCompiler (js ''file:///a.grammar'') 0
          withDependency) = Inr [] \<and>
   fst (onReferences exampleLibrary exampleHost exampleCompiler (js ''file:///a.grammar'') 0
          withDependency) = Inr []"
  by code_simp

subsection \<open>The registry invariant\<close>

lemma docsOK_map:
  assumes "docsOK xs" and "\<And>d. filename (g d) = filename d"
    and "\<And>d. isOpenOnClient d \<or> isOpenOnServer d \<Longrightarrow> isOpenOnClient (g d) \<or> isOpenOnServer (g d)"
  shows "docsOK (map g xs)"
proof -
  have "filename \<circ> g = filename"
    using assms(2) by (simp add: fun_eq_iff)
  with assms(1,3) show ?thesis by (auto simp: docsOK_def)
qed

lemma docsOK_map_at:
  assumes "docsOK xs" and "\<And>d. filename (upd d) = filename d"
    and "\<And>d. isOpenOnClient d \<or> isOpenOnServer d \<Longrightarrow> isOpenOnClient (upd d) \<or> isOpenOnServer (upd d)"
  shows "docsOK (map (\<lambda>d. if filename d = f then upd d else d) xs)"
  using assms by (intro docsOK_map) auto

lemma docsOK_filter: "docsOK xs \<Longrightarrow> docsOK (filter P xs)"
  by (auto simp: docsOK_def distinct_map_filter)

lemma docsOK_snoc:
  assumes "docsOK xs" and "filename d \<notin> filename ` set xs"
    and "isOpenOnClient d \<or> isOpenOnServer d"
  shows "docsOK (xs @ [d])"
  using assms by (auto simp: docsOK_def)

lemma dictSet_absent: "filename d \<notin> filename ` set xs \<Longrightarrow> dictSet d xs = xs @ [d]"
  by (induction xs) auto

lemma map_at_absent:
  "f \<notin> filename ` set xs \<Longrightarrow> map (\<lambda>d. if filename d = f then upd d else d) xs = xs"
  by (induction xs) auto

lemma found_is_only:
  assumes "distinct (map filename xs)" and "find (\<lambda>d. filename d = f) xs = Some d"
    and "x \<in> set xs" and "filename x = f"
  shows "x = d"
proof -
  from assms(2) have "d \<in> set xs" and "filename d = f"
    by (auto simp: find_Some_iff)
  with assms(1,3,4) show ?thesis
    by (metis distinct_map inj_onD)
qed

text \<open>Clearing one flag of the found document when its other flag is set.\<close>

lemma docsOK_clear:
  assumes "docsOK xs" and "find (\<lambda>d. filename d = f) xs = Some d"
    and "\<And>x. filename (upd x) = filename x"
    and "isOpenOnClient (upd d) \<or> isOpenOnServer (upd d)"
  shows "docsOK (map (\<lambda>x. if filename x = f then upd x else x) xs)"
proof -
  have names: "filename \<circ> (\<lambda>x. if filename x = f then upd x else x) = filename"
    using assms(3) by (simp add: fun_eq_iff)
  have "isOpenOnClient y \<or> isOpenOnServer y"
    if "y \<in> set (map (\<lambda>x. if filename x = f then upd x else x) xs)" for y
  proof -
    from that obtain x where x: "x \<in> set xs" "y = (if filename x = f then upd x else x)"
      by auto
    show ?thesis
    proof (cases "filename x = f")
      case True
      with assms(1,2) x(1) have "x = d" by (auto simp: docsOK_def intro: found_is_only)
      with True x(2) assms(4) show ?thesis by simp
    next
      case False
      with x assms(1) show ?thesis by (auto simp: docsOK_def)
    qed
  qed
  with names assms(1) show ?thesis by (auto simp: docsOK_def)
qed

lemma registryInvariant_steps [simp]:
  "registryInvariant (fire e m) = registryInvariant m"
  "registryInvariant (invalidateGrammar m) = registryInvariant m"
  "registryInvariant (m\<lparr>p_updating := b\<rparr>) = registryInvariant m"
  "registryInvariant (m\<lparr>p_updateRequested := b\<rparr>) = registryInvariant m"
  "registryInvariant (m\<lparr>p_updateSuspended := n\<rparr>) = registryInvariant m"
  "registryInvariant (m\<lparr>requests := n\<rparr>) = registryInvariant m"
  "registryInvariant (m\<lparr>p_rootNames := r\<rparr>) = registryInvariant m"
  "registryInvariant (m\<lparr>p_grammar := g\<rparr>) = registryInvariant m"
  by (simp_all add: registryInvariant_def)

lemma reportUpdate_invariant:
  assumes "\<And>x. registryInvariant x \<Longrightarrow> registryInvariant (L x)" and "registryInvariant m"
  shows "registryInvariant (reportUpdate L m)"
  using assms by (simp add: reportUpdate_def Let_def)

lemma requestUpdate_invariant:
  assumes "\<And>x. registryInvariant x \<Longrightarrow> registryInvariant (L x)" and "registryInvariant m"
  shows "registryInvariant (requestUpdate L m)"
  using assms by (simp add: requestUpdate_def Let_def reportUpdate_invariant)

lemma resumeUpdates_invariant:
  assumes "\<And>x. registryInvariant x \<Longrightarrow> registryInvariant (L x)" and "registryInvariant m"
  shows "registryInvariant (resumeUpdates L m)"
  using assms by (simp add: resumeUpdates_def Let_def reportUpdate_invariant)

text \<open>
  Getting or creating a document, assigning fields that are not flags, and setting one of
  the flags.
\<close>

lemma opened_invariant:
  assumes "registryInvariant m"
    and "\<And>d. filename (upd d) = filename d"
    and "\<And>d. isOpenOnClient (upd d) = isOpenOnClient d"
    and "\<And>d. isOpenOnServer (upd d) = isOpenOnServer d"
  shows "registryInvariant
           (openDocumentOnClient (fst (snd (getOrCreateDocument f m)))
              (setDocument (filename (fst (snd (getOrCreateDocument f m)))) upd
                 (snd (snd (getOrCreateDocument f m)))))"
    and "registryInvariant
           (openDocumentOnServer (fst (snd (getOrCreateDocument f m)))
              (setDocument (filename (fst (snd (getOrCreateDocument f m)))) upd
                 (snd (snd (getOrCreateDocument f m)))))"
proof -
  let ?xs = "p_documents m"
  from assms(1) have ok: "docsOK ?xs" by (simp add: registryInvariant_def)
  have ok_upd: "docsOK (map (\<lambda>x. if filename x = f then upd x else x) ?xs)"
    using ok assms(2,3,4) by (intro docsOK_map_at) auto
  have client: "docsOK (map (\<lambda>x. if filename x = f then x\<lparr>isOpenOnClient := True\<rparr> else x) ys)"
    if "docsOK ys" for ys using that by (intro docsOK_map_at) auto
  have server: "docsOK (map (\<lambda>x. if filename x = f then x\<lparr>isOpenOnServer := True\<rparr> else x) ys)"
    if "docsOK ys" for ys using that by (intro docsOK_map_at) auto
  show "registryInvariant
           (openDocumentOnClient (fst (snd (getOrCreateDocument f m)))
              (setDocument (filename (fst (snd (getOrCreateDocument f m)))) upd
                 (snd (snd (getOrCreateDocument f m)))))"
  proof (cases "getDocument m f")
    case None
    then have absent: "f \<notin> filename ` set ?xs" by (simp add: getDocument_None)
    then have "dictSet (newGrammarDocument f) ?xs = ?xs @ [newGrammarDocument f]"
      by (intro dictSet_absent) (simp add: newGrammarDocument_def)
    moreover have "docsOK (?xs @ [(upd (newGrammarDocument f))\<lparr>isOpenOnClient := True\<rparr>])"
      using ok absent assms(2) by (intro docsOK_snoc) (simp_all add: newGrammarDocument_def)
    ultimately show ?thesis
      using None absent assms(2)
      by (simp add: getOrCreateDocument_def registryInvariant_def openDocumentOnClient_def
          map_at_absent newGrammarDocument_def)
  next
    case (Some d)
    then have "filename d = f" by (simp add: getDocument_Some)
    with Some ok_upd client [OF ok_upd] show ?thesis
      by (simp add: getOrCreateDocument_def registryInvariant_def openDocumentOnClient_def)
  qed
  show "registryInvariant
           (openDocumentOnServer (fst (snd (getOrCreateDocument f m)))
              (setDocument (filename (fst (snd (getOrCreateDocument f m)))) upd
                 (snd (snd (getOrCreateDocument f m)))))"
  proof (cases "getDocument m f")
    case None
    then have absent: "f \<notin> filename ` set ?xs" by (simp add: getDocument_None)
    then have "dictSet (newGrammarDocument f) ?xs = ?xs @ [newGrammarDocument f]"
      by (intro dictSet_absent) (simp add: newGrammarDocument_def)
    moreover have "docsOK (?xs @ [(upd (newGrammarDocument f))\<lparr>isOpenOnServer := True\<rparr>])"
      using ok absent assms(2) by (intro docsOK_snoc) (simp_all add: newGrammarDocument_def)
    ultimately show ?thesis
      using None absent assms(2)
      by (simp add: getOrCreateDocument_def registryInvariant_def openDocumentOnServer_def
          map_at_absent newGrammarDocument_def)
  next
    case (Some d)
    then have "filename d = f" by (simp add: getDocument_Some)
    with Some ok_upd server [OF ok_upd] show ?thesis
      by (simp add: getOrCreateDocument_def registryInvariant_def openDocumentOnServer_def)
  qed
qed

lemma handleOpenClientDocument_invariant:
  assumes "\<And>x. registryInvariant x \<Longrightarrow> registryInvariant (L x)" and "registryInvariant m"
  shows "registryInvariant (handleOpenClientDocument h L u t m)"
  using opened_invariant(1) [OF assms(2), of "\<lambda>d. d\<lparr>uri := Some u, text' := Some t\<rparr>"
      "normalizeFilename h (TextDocumentIdentifier u)"]
  by (auto simp: handleOpenClientDocument_def Let_def split_beta
      intro!: requestUpdate_invariant assms(1))

lemma handleUpdateClientDocument_invariant:
  assumes "\<And>x. registryInvariant x \<Longrightarrow> registryInvariant (L x)" and "registryInvariant m"
  shows "registryInvariant (handleUpdateClientDocument h L u contentChanges m)"
  using opened_invariant(1) [OF assms(2),
      of "\<lambda>d. d\<lparr>uri := Some u, text' := Some (last contentChanges)\<rparr>"
      "normalizeFilename h (TextDocumentIdentifier u)"] assms(2)
  by (auto simp: handleUpdateClientDocument_def Let_def split_beta
      intro!: requestUpdate_invariant assms(1))

lemma open_invariant:
  assumes "\<And>x. registryInvariant x \<Longrightarrow> registryInvariant (L x)" and "registryInvariant m"
    and "\<not> throws h (Open ident)"
  shows "registryInvariant (snd (open h L ident m))"
proof (cases "host_readFile h (normalizeFilename h ident)")
  case None
  with assms(2) show ?thesis by (simp add: open_def)
next
  case (Some t)
  with assms(3) obtain v where v: "normalizeUri ident = Inr v"
    by (auto split: sum.splits)
  from opened_invariant(2) [OF assms(2), of "\<lambda>d. d\<lparr>uri := Some v, text' := Some t\<rparr>"
      "normalizeFilename h ident"] Some v
  show ?thesis
    by (auto simp: open_def Let_def split_beta intro!: requestUpdate_invariant assms(1))
qed

lemma closeDocumentOnServer_invariant:
  assumes "registryInvariant m" and "getDocument m f = Some d"
  shows "registryInvariant (snd (closeDocumentOnServer d m))"
proof -
  from assms(2) have fn: "filename d = f" by (simp add: getDocument_Some)
  from assms(1) have ok: "docsOK (p_documents m)" by (simp add: registryInvariant_def)
  have "docsOK (map (\<lambda>x. if filename x = f then x\<lparr>isOpenOnServer := False\<rparr> else x)
                  (p_documents m))" if "isOpenOnClient d"
    using ok assms(2) that by (intro docsOK_clear [where d = d]) (simp_all add: getDocument_def)
  with ok fn show ?thesis
    by (simp add: registryInvariant_def closeDocumentOnServer_documents docsOK_filter)
qed

lemma closeDocumentOnClient_documents:
  "p_documents (snd (closeDocumentOnClient d m)) =
     (if isOpenOnClient d then
        (if isOpenOnServer d
         then map (\<lambda>x. if filename x = filename d then x\<lparr>isOpenOnClient := False\<rparr> else x)
                (p_documents m)
         else filter (\<lambda>x. filename x \<noteq> filename d) (p_documents m))
      else p_documents m)"
  by (simp add: closeDocumentOnClient_def Let_def filter_map_same)

lemma closeDocumentOnClient_invariant:
  assumes "registryInvariant m" and "getDocument m f = Some d"
  shows "registryInvariant (snd (closeDocumentOnClient d m))"
proof -
  from assms(2) have fn: "filename d = f" by (simp add: getDocument_Some)
  from assms(1) have ok: "docsOK (p_documents m)" by (simp add: registryInvariant_def)
  have "docsOK (map (\<lambda>x. if filename x = f then x\<lparr>isOpenOnClient := False\<rparr> else x)
                  (p_documents m))" if "isOpenOnServer d"
    using ok assms(2) that by (intro docsOK_clear [where d = d]) (simp_all add: getDocument_def)
  with ok fn show ?thesis
    by (simp add: registryInvariant_def closeDocumentOnClient_documents docsOK_filter)
qed

lemma close_invariant:
  assumes "\<And>x. registryInvariant x \<Longrightarrow> registryInvariant (L x)" and "registryInvariant m"
  shows "registryInvariant (close h L ident m)"
  using assms(2) closeDocumentOnServer_invariant [OF assms(2)]
  by (auto simp: close_def Let_def split_beta split: option.splits
      intro!: requestUpdate_invariant assms(1))

lemma handleCloseClientDocument_invariant:
  assumes "\<And>x. registryInvariant x \<Longrightarrow> registryInvariant (L x)" and "registryInvariant m"
  shows "registryInvariant (handleCloseClientDocument h L u m)"
  using assms(2) closeDocumentOnClient_invariant [OF assms(2)]
  by (auto simp: handleCloseClientDocument_def Let_def split_beta split: option.splits
      intro!: requestUpdate_invariant assms(1))

lemma setDocument_marked_invariant:
  "registryInvariant m \<Longrightarrow> registryInvariant (setDocument f (\<lambda>d. d\<lparr>marked := b\<rparr>) m)"
  by (simp add: registryInvariant_def docsOK_map_at)

lemma readFile_invariant:
  assumes "registryInvariant m"
  shows "registryInvariant (snd (readFile h f m))"
proof (cases "getDocument m f")
  case (Some d)
  then have "filename d = f" by (simp add: getDocument_Some)
  with Some assms show ?thesis
    by (simp add: readFile_def Let_def setDocument_marked_invariant)
next
  case None
  show ?thesis
  proof (cases "host_readFile h f")
    case no: None
    with None assms show ?thesis by (simp add: readFile_def Let_def)
  next
    case (Some t)
    let ?m1 = "openDocumentOnServer (newGrammarDocument f)
                 (setDocument f (\<lambda>d. d\<lparr>text' := Some t\<rparr>) (createDocument f m))"
    have "registryInvariant ?m1"
      using opened_invariant(2) [OF assms, of "\<lambda>d. d\<lparr>text' := Some t\<rparr>" f] None
      by (simp add: getOrCreateDocument_def newGrammarDocument_def)
    then have "registryInvariant (setDocument g (\<lambda>d. d\<lparr>marked := True\<rparr>) ?m1)" for g
      by (rule setDocument_marked_invariant)
    with None Some \<open>registryInvariant ?m1\<close> show ?thesis
      by (simp add: readFile_def Let_def split: option.splits)
  qed
qed

lemma runCompilation_invariant:
  "registryInvariant m \<Longrightarrow> registryInvariant (snd (runCompilation h k m))"
proof (induction k arbitrary: m)
  case Done
  then show ?case by simp
next
  case (ReadFile g k)
  obtain r m1 where r: "readFile h g m = (r, m1)" by (cases "readFile h g m")
  from ReadFile.prems have "registryInvariant m1"
    using readFile_invariant [of m h g] unfolding r by simp
  moreover have "k r \<in> range k" by simp
  ultimately have "registryInvariant (snd (runCompilation h (k r) m1))"
    by (rule ReadFile.IH [rotated])
  then show ?case by (simp add: r split_beta)
qed

lemma buildGrammar_invariant:
  assumes "registryInvariant m"
  shows "registryInvariant (snd (buildGrammar h c m))"
proof -
  from assms have "docsOK (map (\<lambda>d. d\<lparr>marked := isOpenOnClient d\<rparr>) (p_documents m))"
    by (intro docsOK_map) (simp_all add: registryInvariant_def)
  then have "registryInvariant
      (m\<lparr>p_documents := map (\<lambda>d. d\<lparr>marked := isOpenOnClient d\<rparr>) (p_documents m),
         p_rootNames := r, p_grammar := g\<rparr>)" for r g
    by (simp add: registryInvariant_def)
  then show ?thesis
    by (simp add: buildGrammar_def Let_def runCompilation_invariant)
qed

lemma sweep_invariant:
  assumes "\<And>x. registryInvariant x \<Longrightarrow> registryInvariant (L x)"
  shows "registryInvariant m \<Longrightarrow> registryInvariant (sweep h L ds m)"
proof (induction ds arbitrary: m)
  case Nil
  then show ?case by simp
next
  case (Cons x ds)
  from Cons.prems assms show ?case
    by (auto intro!: Cons.IH close_invariant)
qed

lemma refreshGrammar_invariant:
  assumes "\<And>x. registryInvariant x \<Longrightarrow> registryInvariant (L x)" and "registryInvariant m"
  shows "registryInvariant (refreshGrammar h c L m)"
proof -
  from assms(2) have "registryInvariant (snd (buildGrammar h c (m\<lparr>p_updating := True\<rparr>)))"
    by (intro buildGrammar_invariant) simp
  then show ?thesis
    by (simp add: refreshGrammar_def Let_def split_beta sweep_invariant assms(1))
qed

lemma didUpdate_invariant:
  "registryInvariant m \<Longrightarrow> registryInvariant (didUpdate h c m)"
  by (simp add: didUpdate_def onDocumentsUpdated_def grammar_def Let_def split_beta
      refreshGrammar_invariant split: option.splits)

text \<open>
  Every operation that does not throw keeps the registry invariant, when the subscribers of
  the update event keep it; the subscriber of the server does.
\<close>

lemma perform_invariant:
  assumes "\<And>x. registryInvariant x \<Longrightarrow> registryInvariant (L x)" and "registryInvariant m"
    and "\<not> throws h x"
  shows "registryInvariant (perform h L x m)"
proof (cases x)
  case (Open ident)
  with assms show ?thesis by (simp add: open_invariant)
next
  case (Close ident)
  with assms show ?thesis by (simp add: close_invariant)
next
  case (ClientOpened u t)
  with assms show ?thesis by (simp add: handleOpenClientDocument_invariant)
next
  case (ClientChanged u cs)
  with assms show ?thesis by (simp add: handleUpdateClientDocument_invariant)
next
  case (ClientClosed u)
  with assms show ?thesis by (simp add: handleCloseClientDocument_invariant)
next
  case (ReadCallback f)
  with assms show ?thesis by (simp add: readFile_invariant)
qed

lemma performAll_invariant:
  assumes "\<And>x. registryInvariant x \<Longrightarrow> registryInvariant (L x)"
  shows "registryInvariant m \<Longrightarrow> \<forall>x \<in> set xs. \<not> throws h x \<Longrightarrow>
         registryInvariant (performAll h L xs m)"
proof (induction xs arbitrary: m)
  case Nil
  then show ?case by simp
next
  case (Cons x xs)
  from Cons.prems have "registryInvariant (perform h L x m)"
    by (intro perform_invariant assms) simp_all
  with Cons.prems show ?case by (auto intro: Cons.IH)
qed

lemma server_registry_invariant:
  assumes "\<forall>x \<in> set xs. \<not> throws h x"
  shows "registryInvariant (performAll h (didUpdate h c) xs newDocumentManager)"
proof -
  have "registryInvariant newDocumentManager"
    by (simp add: registryInvariant_def docsOK_def newDocumentManager_def)
  with assms show ?thesis
    by (intro performAll_invariant didUpdate_invariant)
qed

text \<open>
  C1 at an \<open>open\<close> that throws: the file exists, so the document is created and
  registered, then \<open>normalizeUri\<close> throws \<open>URIError\<close> on the unpaired surrogate before
  \<open>isOpenOnServer\<close> is set. The operation ends with a document in the registry that is
  open on neither side, and the same holds with two operations before it.
\<close>

theorem open_throws_after_creating:
  "open surrogateHost (didUpdate surrogateHost exampleCompiler) (Path [0x2F, 0xD800])
     newDocumentManager =
     (Inl URIError, newDocumentManager\<lparr>p_documents := [newGrammarDocument [0x2F, 0xD800]]\<rparr>) \<and>
   isOpenOnClient (newGrammarDocument [0x2F, 0xD800]) = False \<and>
   isOpenOnServer (newGrammarDocument [0x2F, 0xD800]) = False \<and>
   map (\<lambda>d. (isOpenOnClient d, isOpenOnServer d))
     (p_documents (performAll surrogateHost (didUpdate surrogateHost exampleCompiler)
        [ClientOpened (js ''file:///a.grammar'') (js ''A''),
         ClientClosed (js ''file:///a.grammar''),
         Open (Path [0x2F, 0xD800])] newDocumentManager)) = [(False, False)]"
  by code_simp

subsection \<open>The subscribers are not reached during a rebuild\<close>

lemma close_listener: "blocked m \<Longrightarrow> close h L ident m = close h L' ident m"
  by (simp add: close_def Let_def split_beta requestUpdate_blocked split: option.splits)

lemma sweep_listener: "blocked m \<Longrightarrow> sweep h L ds m = sweep h L' ds m"
proof (induction ds arbitrary: m)
  case Nil
  show ?case by simp
next
  case (Cons x ds)
  show ?case
  proof (cases "\<not> marked x \<and> \<not> isOpenOnClient x")
    case True
    let ?m' = "close h L' (Path (filename x)) m"
    from Cons.prems have same: "close h L (Path (filename x)) m = ?m'"
      by (rule close_listener)
    from Cons.prems have "blocked ?m'" by (rule close_blocked_blocked)
    then have "sweep h L ds ?m' = sweep h L' ds ?m'" by (rule Cons.IH)
    moreover from True have "sweep h L (x # ds) m = sweep h L ds (close h L (Path (filename x)) m)"
      by simp
    moreover from True have "sweep h L' (x # ds) m = sweep h L' ds ?m'"
      by simp
    ultimately show ?thesis by (simp only: same)
  next
    case False
    then have "sweep h L (x # ds) m = sweep h L ds m" and "sweep h L' (x # ds) m = sweep h L' ds m"
      by auto
    with Cons.IH [OF Cons.prems] show ?thesis by simp
  qed
qed

lemma refreshGrammar_listener: "refreshGrammar h c L m = refreshGrammar h c L' m"
proof -
  let ?m2 = "snd (buildGrammar h c (m\<lparr>p_updating := True\<rparr>))"
  have "sweep h L (p_documents ?m2) ?m2 = sweep h L' (p_documents ?m2) ?m2"
    by (rule sweep_listener [OF buildGrammar_blocked])
  then show ?thesis by (simp add: refreshGrammar_def Let_def split_beta)
qed

lemma grammar_listener: "grammar h c L m = grammar h c L' m"
  by (simp add: grammar_def refreshGrammar_listener [of h c L m L'])

text \<open>
  The subscriber of the server throws when the getter gives \<open>undefined\<close>, as after a
  sweep that removed a document.
\<close>

lemma onDocumentsUpdated_without_grammar:
  "fst (grammar h c L m) = None \<Longrightarrow> fst (onDocumentsUpdated h c m) = Inl TypeError"
  using grammar_listener [of h c L m "\<lambda>x. x"]
  by (simp add: onDocumentsUpdated_def split_beta)

end
